theory Spec2Isabelle
  imports Complex_Main "HOL-Library.Sublist" "HOL-Library.Multiset"
begin

section \<open>Tabular data: cells, rows, frames\<close>

text \<open>
  The pipeline works on pandas frames. A cell is a missing value (None, NaN, NaT), a
  number, a string, a timestamp (nanoseconds since the epoch) or a boolean. A row, as
  handed to a row-wise function by \<^verbatim>\<open>df.apply(f, axis=1)\<close>, is a dictionary from
  column names to cells. Numbers are exact reals: rounding of binary floating point is
  outside the model.
\<close>

datatype cell = Null | Num real | Str string | Time int | Bool bool

datatype error = KeyError | TypeError | ValueError | ZeroDivisionError

type_synonym row = "string \<rightharpoonup> cell"

definition isna :: "cell \<Rightarrow> bool" where
  "isna c = (c = Null)"

definition notna :: "cell \<Rightarrow> bool" where
  "notna c = (c \<noteq> Null)"

text \<open>\<^verbatim>\<open>row.get(k)\<close>: the cell, or None when the row has no such column.\<close>

definition row_get :: "row \<Rightarrow> string \<Rightarrow> cell" where
  "row_get r k = (case r k of None \<Rightarrow> Null | Some v \<Rightarrow> v)"

text \<open>\<^verbatim>\<open>d[k]\<close> on a dictionary: KeyError when the key is absent.\<close>

definition lookup :: "('k \<rightharpoonup> 'v) \<Rightarrow> 'k \<Rightarrow> error + 'v" where
  "lookup m k = (case m k of None \<Rightarrow> Inl KeyError | Some v \<Rightarrow> Inr v)"

text \<open>
  A frame has its columns in order, each with its dtype, and its rows in order.
  \<^verbatim>\<open>df[c]\<close> raises KeyError when the frame has no column \<^verbatim>\<open>c\<close>.
\<close>

datatype dtype = Float32 | Float64 | Int32 | Int64 | Object | Boolean | Datetime64 | Category

record dataframe =
  columns :: "(string \<times> dtype) list"
  rows :: "row list"

definition colnames :: "dataframe \<Rightarrow> string list" where
  "colnames df = map fst (columns df)"

definition has_column :: "dataframe \<Rightarrow> string \<Rightarrow> bool" where
  "has_column df c = (c \<in> set (colnames df))"

definition series :: "dataframe \<Rightarrow> string \<Rightarrow> error + cell list" where
  "series df c =
     (if has_column df c then Inr (map (\<lambda>r. row_get r c) (rows df)) else Inl KeyError)"

text \<open>
  Element-wise comparison of a column with a number. Ordering a string or a timestamp
  against a number raises TypeError; a missing value compares false. Equality never
  raises.
\<close>

fun cell_gt :: "real \<Rightarrow> cell \<Rightarrow> error + bool" where
  "cell_gt k Null = Inr False"
| "cell_gt k (Num x) = Inr (x > k)"
| "cell_gt k (Bool b) = Inr (of_bool b > k)"
| "cell_gt k (Str s) = Inl TypeError"
| "cell_gt k (Time t) = Inl TypeError"

fun cell_lt :: "real \<Rightarrow> cell \<Rightarrow> error + bool" where
  "cell_lt k Null = Inr False"
| "cell_lt k (Num x) = Inr (x < k)"
| "cell_lt k (Bool b) = Inr (of_bool b < k)"
| "cell_lt k (Str s) = Inl TypeError"
| "cell_lt k (Time t) = Inl TypeError"

fun cell_eq :: "real \<Rightarrow> cell \<Rightarrow> bool" where
  "cell_eq k (Num x) = (x = k)"
| "cell_eq k (Bool b) = (of_bool b = k)"
| "cell_eq k c = False"

fun traverse :: "('a \<Rightarrow> error + 'b) \<Rightarrow> 'a list \<Rightarrow> error + 'b list" where
  "traverse f [] = Inr []"
| "traverse f (x # xs) =
     (case f x of
        Inl e \<Rightarrow> Inl e
      | Inr y \<Rightarrow> (case traverse f xs of Inl e \<Rightarrow> Inl e | Inr ys \<Rightarrow> Inr (y # ys)))"

text \<open>\<^verbatim>\<open>df[mask]\<close>: the rows at which the boolean mask is true.\<close>

definition select :: "bool list \<Rightarrow> 'a list \<Rightarrow> 'a list" where
  "select keep xs = map snd (filter fst (zip keep xs))"

text \<open>\<^verbatim>\<open>int(x)\<close> of a float: truncation towards zero.\<close>

definition py_int :: "real \<Rightarrow> int" where
  "py_int x = (if 0 \<le> x then \<lfloor>x\<rfloor> else \<lceil>x\<rceil>)"

text \<open>
  \<^verbatim>\<open>sample(n=n, random_state=42)\<close> draws without replacement: it takes the rows at
  the first \<open>n\<close> positions of the permutation that a generator freshly seeded with 42
  gives for the frame's length. That permutation is numpy's, so it is a parameter
  \<open>perm\<close>, a function of the length only. A negative \<open>n\<close>, or one above the length,
  raises ValueError. \<^verbatim>\<open>sample(frac=1, random_state=42)\<close> takes all positions.
\<close>

definition sample :: "(nat \<Rightarrow> nat list) \<Rightarrow> int \<Rightarrow> 'a list \<Rightarrow> error + 'a list" where
  "sample perm n xs =
     (if n < 0 \<or> int (length xs) < n then Inl ValueError
      else Inr (map (\<lambda>i. xs ! i) (take (nat n) (perm (length xs)))))"

definition shuffle :: "(nat \<Rightarrow> nat list) \<Rightarrow> 'a list \<Rightarrow> 'a list" where
  "shuffle perm xs = map (\<lambda>i. xs ! i) (perm (length xs))"

definition is_permutation :: "(nat \<Rightarrow> nat list) \<Rightarrow> bool" where
  "is_permutation perm = (\<forall>n. mset (perm n) = mset [0..<n])"

text \<open>
  \<^verbatim>\<open>df[c] = df[c].map(f)\<close> and the like: every row gets a new cell in column \<open>c\<close>.
\<close>

definition map_column :: "string \<Rightarrow> (cell \<Rightarrow> cell) \<Rightarrow> dataframe \<Rightarrow> dataframe" where
  "map_column c f df = df\<lparr>rows := map (\<lambda>r. r(c \<mapsto> f (row_get r c))) (rows df)\<rparr>"

text \<open>
  \<^verbatim>\<open>df[c] = values\<close>: the column is replaced where it stands, or added at the end,
  and takes the dtype of the values.
\<close>

definition set_dtype :: "string \<Rightarrow> dtype \<Rightarrow> (string \<times> dtype) list \<Rightarrow> (string \<times> dtype) list" where
  "set_dtype c t cols =
     (if c \<in> set (map fst cols) then map (\<lambda>(n, d). if n = c then (n, t) else (n, d)) cols
      else cols @ [(c, t)])"

definition assign_column :: "string \<Rightarrow> dtype \<Rightarrow> (row \<Rightarrow> cell) \<Rightarrow> dataframe \<Rightarrow> dataframe" where
  "assign_column c t f df =
     \<lparr>columns = set_dtype c t (columns df), rows = map (\<lambda>r. r(c \<mapsto> f r)) (rows df)\<rparr>"

definition assign_values :: "string \<Rightarrow> dtype \<Rightarrow> cell list \<Rightarrow> dataframe \<Rightarrow> dataframe" where
  "assign_values c t vals df =
     \<lparr>columns = set_dtype c t (columns df),
      rows = map2 (\<lambda>r v. r(c \<mapsto> v)) (rows df) vals\<rparr>"

text \<open>\<^verbatim>\<open>df.drop(columns=cs)\<close>.\<close>

definition drop_columns :: "string list \<Rightarrow> dataframe \<Rightarrow> dataframe" where
  "drop_columns cs df =
     \<lparr>columns = filter (\<lambda>(n, d). n \<notin> set cs) (columns df),
      rows = map (\<lambda>r. r |` (- set cs)) (rows df)\<rparr>"

text \<open>\<^verbatim>\<open>clip(0, 1)\<close> on a cell: numbers are clamped, anything else is left.\<close>

definition clip_cell :: "cell \<Rightarrow> cell" where
  "clip_cell c = (case c of Num x \<Rightarrow> Num (min (max x 0) 1) | _ \<Rightarrow> c)"

text \<open>
  \<^verbatim>\<open>((df[col] < 0) | (df[col] > 1)).sum()\<close>: both comparisons run over the whole
  column, the first one first, and either raises on a cell it cannot order.
\<close>

definition out_of_range_count :: "cell list \<Rightarrow> error + nat" where
  "out_of_range_count cells =
     (case traverse (cell_lt 0) cells of
        Inl e \<Rightarrow> Inl e
      | Inr lows \<Rightarrow>
          (case traverse (cell_gt 1) cells of
             Inl e \<Rightarrow> Inl e
           | Inr highs \<Rightarrow> Inr (length (filter id (map2 (\<or>) lows highs)))))"

definition endswith :: "string \<Rightarrow> string \<Rightarrow> bool" where
  "endswith c suf = suffix suf c"

definition startswith :: "string \<Rightarrow> string \<Rightarrow> bool" where
  "startswith c pre = prefix pre c"

definition contains :: "string \<Rightarrow> string \<Rightarrow> bool" where
  "contains c sub = sublist sub c"

section \<open>Configuration (config/dataset\_config.py)\<close>

definition SEASON_MAPPING :: "nat \<rightharpoonup> string" where
  "SEASON_MAPPING = map_of
     [(12, ''winter''), (1, ''winter''), (2, ''winter''),
      (3, ''spring''), (4, ''spring''), (5, ''spring''),
      (6, ''summer''), (7, ''summer''), (8, ''summer''),
      (9, ''autumn''), (10, ''autumn''), (11, ''autumn'')]"

definition COUNTRY_TO_REGION :: "string \<rightharpoonup> string" where
  "COUNTRY_TO_REGION = map_of
     [(''FR'', ''Europe''), (''DE'', ''Europe''), (''IT'', ''Europe''), (''ES'', ''Europe''),
      (''UK'', ''Europe''), (''PT'', ''Europe''), (''NL'', ''Europe''), (''BE'', ''Europe''),
      (''CH'', ''Europe''), (''AT'', ''Europe''), (''GR'', ''Europe''), (''SE'', ''Europe''),
      (''NO'', ''Europe''), (''DK'', ''Europe''), (''FI'', ''Europe''),
      (''US'', ''North America''), (''CA'', ''North America''), (''MX'', ''North America''),
      (''CN'', ''Asia''), (''JP'', ''Asia''), (''KR'', ''Asia''), (''IN'', ''Asia''),
      (''TH'', ''Asia''), (''VN'', ''Asia''), (''ID'', ''Asia''), (''MY'', ''Asia''),
      (''SG'', ''Asia''), (''PH'', ''Asia''),
      (''AE'', ''Middle East''), (''SA'', ''Middle East''), (''IL'', ''Middle East''),
      (''TR'', ''Middle East''),
      (''AU'', ''Oceania''), (''NZ'', ''Oceania''),
      (''BR'', ''South America''), (''AR'', ''South America''), (''CL'', ''South America''),
      (''PE'', ''South America''),
      (''ZA'', ''Africa''), (''EG'', ''Africa''), (''MA'', ''Africa''), (''KE'', ''Africa'')]"

definition AGE_BINS :: "real list" where
  "AGE_BINS = [0, 25, 35, 50, 65, 100]"

definition AGE_LABELS :: "string list" where
  "AGE_LABELS = [''18-25'', ''26-35'', ''36-50'', ''51-65'', ''65+'']"

definition REQUIRED_COLUMNS :: "string list" where
  "REQUIRED_COLUMNS =
     [''user_hash'', ''user_climate_pref'', ''user_culture_pref'', ''user_budget_level'',
      ''user_activity_level'', ''item_destination_id'', ''recommendation_score'',
      ''engagement_score'', ''booking_probability'']"


definition ENGAGEMENT_SCORES :: "string \<rightharpoonup> real" where
  "ENGAGEMENT_SCORES = map_of
     [(''NOT_VIEWED'', 0), (''VIEWED'', 1), (''CLICKED'', 3), (''BOOKED'', 5),
      (''REJECTED'', - 1)]"

definition NEGATIVE_SAMPLE_RATIO :: real where
  "NEGATIVE_SAMPLE_RATIO = 2"

section \<open>Feature engineering (etl/feature\_engineering.py)\<close>

text \<open>
  \<^verbatim>\<open>pd.to_datetime\<close> over a column. With \<^verbatim>\<open>errors='coerce'\<close> a cell that does
  not parse becomes NaT; without it the call raises. A missing cell is NaT either way.
  The conversion of one cell, the clock (\<^verbatim>\<open>pd.Timestamp.now()\<close>) and the calendar
  fields of a timestamp (\<^verbatim>\<open>dt.month\<close>, \<^verbatim>\<open>dt.dayofweek\<close>) are parameters.
\<close>

definition to_datetime_coerce :: "(cell \<Rightarrow> error + int) \<Rightarrow> cell \<Rightarrow> cell" where
  "to_datetime_coerce to_datetime c =
     (if isna c then Null
      else (case to_datetime c of Inl e \<Rightarrow> Null | Inr t \<Rightarrow> Time t))"

definition to_datetime_raise :: "(cell \<Rightarrow> error + int) \<Rightarrow> cell \<Rightarrow> error + cell" where
  "to_datetime_raise to_datetime c =
     (if isna c then Inr Null
      else (case to_datetime c of Inl e \<Rightarrow> Inl e | Inr t \<Rightarrow> Inr (Time t)))"

definition NS_PER_DAY :: int where
  "NS_PER_DAY = 86400 * 1000000000"

definition clip_int :: "int \<Rightarrow> int \<Rightarrow> int \<Rightarrow> int" where
  "clip_int lo hi x = min (max x lo) hi"

text \<open>\<^verbatim>\<open>((now - dob).dt.days // 365).clip(18, 100)\<close>; NaT gives a missing age.\<close>

definition user_age_of :: "int \<Rightarrow> cell \<Rightarrow> cell" where
  "user_age_of now dob =
     (case dob of
        Time t \<Rightarrow> Num (of_int (clip_int 18 100 (((now - t) div NS_PER_DAY) div 365)))
      | _ \<Rightarrow> Null)"

definition season_of :: "(int \<Rightarrow> nat) \<Rightarrow> cell \<Rightarrow> cell" where
  "season_of month ts =
     (case ts of
        Time t \<Rightarrow> (case SEASON_MAPPING (month t) of None \<Rightarrow> Null | Some s \<Rightarrow> Str s)
      | _ \<Rightarrow> Null)"

definition is_weekend_of :: "(int \<Rightarrow> nat) \<Rightarrow> cell \<Rightarrow> cell" where
  "is_weekend_of dayofweek ts =
     (case ts of Time t \<Rightarrow> Bool (dayofweek t \<in> set [5, 6]) | _ \<Rightarrow> Bool False)"

text \<open>
  \<^verbatim>\<open>(df['departureDate'] - df['timestamp']).dt.days.clip(0, 365)\<close>. The departure is
  a timestamp or NaT by now; subtracting a \<^verbatim>\<open>timestamp\<close> cell that is neither
  raises TypeError.
\<close>

definition days_until_departure_of :: "cell \<Rightarrow> cell \<Rightarrow> error + cell" where
  "days_until_departure_of departure ts =
     (case ts of
        Time t \<Rightarrow>
          (case departure of
             Time d \<Rightarrow> Inr (Num (of_int (clip_int 0 365 ((d - t) div NS_PER_DAY))))
           | _ \<Rightarrow> Inr Null)
      | Null \<Rightarrow> Inr Null
      | _ \<Rightarrow> Inl TypeError)"

definition nullable_int_dtype :: "cell list \<Rightarrow> dtype" where
  "nullable_int_dtype cells = (if list_ex isna cells then Float64 else Int64)"

definition age_features :: "(cell \<Rightarrow> error + int) \<Rightarrow> int \<Rightarrow> dataframe \<Rightarrow> dataframe" where
  "age_features to_datetime now df =
     (if has_column df ''dateOfBirth'' then
        let df1 = assign_column ''dateOfBirth'' Datetime64
                    (\<lambda>r. to_datetime_coerce to_datetime (row_get r ''dateOfBirth'')) df;
            ages = map (\<lambda>r. user_age_of now (row_get r ''dateOfBirth'')) (rows df1)
        in assign_values ''user_age'' (nullable_int_dtype ages) ages df1
      else df)"

definition timestamp_features ::
    "(cell \<Rightarrow> error + int) \<Rightarrow> (int \<Rightarrow> nat) \<Rightarrow> (int \<Rightarrow> nat) \<Rightarrow> dataframe \<Rightarrow> error + dataframe" where
  "timestamp_features to_datetime month dayofweek df =
     (if has_column df ''createdAt'' then
        (case traverse (to_datetime_raise to_datetime)
                (map (\<lambda>r. row_get r ''createdAt'') (rows df)) of
           Inl e \<Rightarrow> Inl e
         | Inr stamps \<Rightarrow>
             let df1 = assign_values ''timestamp'' Datetime64 stamps df;
                 df2 = assign_column ''season'' Object
                         (\<lambda>r. season_of month (row_get r ''timestamp'')) df1
             in Inr (assign_column ''is_weekend'' Boolean
                       (\<lambda>r. is_weekend_of dayofweek (row_get r ''timestamp'')) df2))
      else Inr df)"

definition departure_features ::
    "(cell \<Rightarrow> error + int) \<Rightarrow> dataframe \<Rightarrow> error + dataframe" where
  "departure_features to_datetime df =
     (if has_column df ''departureDate'' \<and> has_column df ''timestamp'' then
        let df1 = assign_column ''departureDate'' Datetime64
                    (\<lambda>r. to_datetime_coerce to_datetime (row_get r ''departureDate'')) df
        in case traverse (\<lambda>r. days_until_departure_of (row_get r ''departureDate'')
                                 (row_get r ''timestamp'')) (rows df1) of
             Inl e \<Rightarrow> Inl e
           | Inr days \<Rightarrow>
               Inr (assign_values ''days_until_departure'' (nullable_int_dtype days) days df1)
      else Inr df)"

definition calculate_temporal_features ::
    "(cell \<Rightarrow> error + int) \<Rightarrow> int \<Rightarrow> (int \<Rightarrow> nat) \<Rightarrow> (int \<Rightarrow> nat) \<Rightarrow> dataframe \<Rightarrow> error + dataframe" where
  "calculate_temporal_features to_datetime now month dayofweek df =
     (case timestamp_features to_datetime month dayofweek (age_features to_datetime now df) of
        Inl e \<Rightarrow> Inl e
      | Inr df1 \<Rightarrow>
          (case departure_features to_datetime df1 of
             Inl e \<Rightarrow> Inl e
           | Inr df2 \<Rightarrow>
               Inr (assign_column ''days_since_last_booking'' Int64 (\<lambda>r. Num 0)
                      (assign_column ''days_since_last_search'' Int64 (\<lambda>r. Num 0) df2))))"

text \<open>A conversion for examples: timestamps convert, everything else fails to parse.\<close>

definition only_timestamps :: "cell \<Rightarrow> error + int" where
  "only_timestamps c = (case c of Time t \<Rightarrow> Inr t | _ \<Rightarrow> Inl ValueError)"

text \<open>Frames for examples: one row whose birth date, or creation time, is no date.\<close>

definition bad_birth_date :: dataframe where
  "bad_birth_date =
     \<lparr>columns = [(''dateOfBirth'', Object)],
      rows = [[''dateOfBirth'' \<mapsto> Str ''not-a-date'']]\<rparr>"

definition bad_created_at :: dataframe where
  "bad_created_at =
     \<lparr>columns = [(''createdAt'', Object)],
      rows = [[''createdAt'' \<mapsto> Str ''not-a-date'']]\<rparr>"

section \<open>Label construction (etl/label\_construction.py)\<close>

text \<open>
  \<^verbatim>\<open>calculate_engagement_score(row)\<close>. \<^verbatim>\<open>row['status']\<close> raises KeyError when the
  frame has no status column; the timestamps are read with \<^verbatim>\<open>row.get\<close>. The
  comparison \<^verbatim>\<open>status == 'BOOKED'\<close> is true only of that string.
\<close>

definition calculate_engagement_score :: "row \<Rightarrow> error + real" where
  "calculate_engagement_score r =
     (case r ''status'' of
        None \<Rightarrow> Inl KeyError
      | Some status \<Rightarrow>
          if notna (row_get r ''bookedAt'') \<or> status = Str ''BOOKED''
            then lookup ENGAGEMENT_SCORES ''BOOKED''
          else if notna (row_get r ''clickedAt'') \<or> status = Str ''CLICKED''
            then lookup ENGAGEMENT_SCORES ''CLICKED''
          else if notna (row_get r ''viewedAt'') \<or> status = Str ''VIEWED''
            then lookup ENGAGEMENT_SCORES ''VIEWED''
          else if notna (row_get r ''rejectedAt'') \<or> status = Str ''REJECTED''
            then lookup ENGAGEMENT_SCORES ''REJECTED''
          else lookup ENGAGEMENT_SCORES ''NOT_VIEWED'')"

text \<open>
  The precedence order in the words of the specification: the stages, most positive
  first, each with its timestamp column, its status name and its score; the first stage
  whose timestamp is present or whose name is the status decides, and 0.0 otherwise.
\<close>

definition stage_precedence :: "(string \<times> string \<times> real) list" where
  "stage_precedence =
     [(''bookedAt'', ''BOOKED'', 5), (''clickedAt'', ''CLICKED'', 3),
      (''viewedAt'', ''VIEWED'', 1), (''rejectedAt'', ''REJECTED'', - 1)]"

definition stage_selected :: "row \<Rightarrow> cell \<Rightarrow> string \<times> string \<times> real \<Rightarrow> bool" where
  "stage_selected r status st =
     (notna (row_get r (fst st)) \<or> status = Str (fst (snd st)))"

definition precedence_score :: "row \<Rightarrow> cell \<Rightarrow> real" where
  "precedence_score r status =
     (case find (stage_selected r status) stage_precedence of
        None \<Rightarrow> 0
      | Some st \<Rightarrow> snd (snd st))"

text \<open>
  \<^verbatim>\<open>calculate_time_to_interaction(row)\<close>. Two functions of pandas are parameters:
  the scalar conversion \<^verbatim>\<open>pd.to_datetime\<close>, which gives the timestamp in nanoseconds or
  raises, and \<^verbatim>\<open>Timedelta.total_seconds\<close>, which gives the float of seconds for a
  difference in nanoseconds. \<^verbatim>\<open>int(...)\<close> truncates that float towards zero. The
  subtraction sits in a \<^verbatim>\<open>try\<close> whose bare \<^verbatim>\<open>except\<close> returns None.
\<close>

definition interaction_delta ::
    "(cell \<Rightarrow> error + int) \<Rightarrow> (int \<Rightarrow> real) \<Rightarrow> cell \<Rightarrow> cell \<Rightarrow> error + int" where
  "interaction_delta to_datetime total_seconds interaction_time created_at =
     (case to_datetime interaction_time of
        Inl e \<Rightarrow> Inl e
      | Inr a \<Rightarrow>
          (case to_datetime created_at of
             Inl e \<Rightarrow> Inl e
           | Inr b \<Rightarrow> Inr (py_int (total_seconds (a - b)))))"

definition calculate_time_to_interaction ::
    "(cell \<Rightarrow> error + int) \<Rightarrow> (int \<Rightarrow> real) \<Rightarrow> row \<Rightarrow> error + int option" where
  "calculate_time_to_interaction to_datetime total_seconds r =
     (let created_at = row_get r ''createdAt'' in
      if isna created_at then Inr None
      else
        let interaction_time =
              (if notna (row_get r ''viewedAt'') then r ''viewedAt''
               else if notna (row_get r ''clickedAt'') then r ''clickedAt''
               else if notna (row_get r ''bookedAt'') then r ''bookedAt''
               else None)
        in case interaction_time of
             None \<Rightarrow> Inr None
           | Some t \<Rightarrow>
               if isna t then Inr None
               else (case interaction_delta to_datetime total_seconds t created_at of
                       Inl e \<Rightarrow> Inr None
                     | Inr s \<Rightarrow> Inr (Some s)))"


text \<open>
  For examples: \<^verbatim>\<open>total_seconds\<close> as pandas 2 computes it, from the days, seconds
  and microseconds of the difference, its nanoseconds dropped.
\<close>

definition microsecond_seconds :: "int \<Rightarrow> real" where
  "microsecond_seconds d = of_int (d div 1000) / 1000000"

text \<open>
  \<^verbatim>\<open>construct_labels(df)\<close>. A row-wise function sees a row with exactly the frame's
  columns. \<^verbatim>\<open>apply\<close> over rows gives an integer column when every result is an
  integer, an object column when every result is None or a string, a float column when
  integers and None mix, and a float column on a frame without rows. Python's
  \<^verbatim>\<open>str\<close> of a cell is a parameter.
\<close>

definition series_row :: "dataframe \<Rightarrow> row \<Rightarrow> row" where
  "series_row df r = r |` set (colnames df)"

definition get_interaction_type :: "cell \<Rightarrow> string" where
  "get_interaction_type score =
     (if cell_eq 5 score then ''BOOKED''
      else if cell_eq 3 score then ''CLICKED''
      else if cell_eq 1 score then ''VIEWED''
      else if cell_eq (- 1) score then ''REJECTED''
      else ''NOT_VIEWED'')"

definition seconds_cell :: "int option \<Rightarrow> cell" where
  "seconds_cell t = (case t of None \<Rightarrow> Null | Some s \<Rightarrow> Num (of_int s))"

definition apply_dtype :: "row list \<Rightarrow> dtype \<Rightarrow> dtype" where
  "apply_dtype rs t = (if rs = [] then Float64 else t)"

definition delay_dtype :: "int option list \<Rightarrow> dtype" where
  "delay_dtype delays =
     (if list_all (\<lambda>t. t = None) delays then Object
      else if list_all (\<lambda>t. t \<noteq> None) delays then Int64
      else Float64)"

definition construct_labels ::
    "(cell \<Rightarrow> string) \<Rightarrow> (cell \<Rightarrow> error + int) \<Rightarrow> (int \<Rightarrow> real) \<Rightarrow> dataframe \<Rightarrow>
     error + dataframe" where
  "construct_labels py_str to_datetime total_seconds df =
     (case traverse (\<lambda>r. calculate_engagement_score (series_row df r)) (rows df) of
        Inl e \<Rightarrow> Inl e
      | Inr scores \<Rightarrow>
          let df1 = assign_values ''engagement_score'' Float64 (map Num scores) df;
              df2 = assign_column ''booking_probability'' Int64
                      (\<lambda>r. Num (of_bool (cell_eq 5 (row_get r ''engagement_score'')))) df1
          in case traverse (\<lambda>r. calculate_time_to_interaction to_datetime total_seconds
                                   (series_row df2 r))
                    (rows df2) of
               Inl e \<Rightarrow> Inl e
             | Inr delays \<Rightarrow>
                 let df3 = assign_values ''time_to_interaction''
                             (apply_dtype (rows df) (delay_dtype delays))
                             (map seconds_cell delays) df2;
                     df4 = assign_column ''interaction_type'' (apply_dtype (rows df) Object)
                             (\<lambda>r. Str (get_interaction_type (row_get r ''engagement_score'')))
                             df3
                 in if has_column df4 ''recommendation_id''
                    then Inr (assign_column ''interaction_id'' Object
                                (\<lambda>r. Str (py_str (row_get r ''recommendation_id''))) df4)
                    else Inl KeyError)"

text \<open>
  Label consistency of a row, as the claims state it: the booking flag is 1 exactly when
  the engagement score is 5.0, and it is 0 otherwise.
\<close>

definition label_consistent :: "row \<Rightarrow> bool" where
  "label_consistent r =
     ((row_get r ''booking_probability'' = Num 1) = (row_get r ''engagement_score'' = Num 5) \<and>
      row_get r ''booking_probability'' \<in> set [Num 0, Num 1])"

text \<open>What label construction writes: a number, and the flag computed from it.\<close>

definition labelled :: "row \<Rightarrow> bool" where
  "labelled r =
     (case row_get r ''engagement_score'' of
        Num s \<Rightarrow> row_get r ''booking_probability'' = Num (of_bool (s = 5))
      | _ \<Rightarrow> False)"

definition all_labelled :: "dataframe \<Rightarrow> bool" where
  "all_labelled df = list_all labelled (rows df)"

definition label_dtypes :: "dataframe \<Rightarrow> bool" where
  "label_dtypes df =
     ((''engagement_score'', Object) \<notin> set (columns df) \<and>
      (''booking_probability'', Object) \<notin> set (columns df))"

text \<open>
  Frames for examples: seven recommendations, five of them booked, one rejected and one
  not viewed that has no user; what label construction makes of them; and the rows as
  they are after negative sampling and after cleaning.
\<close>

definition recommendation :: "cell \<Rightarrow> string \<Rightarrow> string \<Rightarrow> row" where
  "recommendation user rid status =
     [''user_id'' \<mapsto> user, ''recommendation_id'' \<mapsto> Str rid, ''status'' \<mapsto> Str status]"

definition seven_recommendations :: dataframe where
  "seven_recommendations =
     \<lparr>columns = [(''user_id'', Object), (''recommendation_id'', Object), (''status'', Object)],
      rows =
        [recommendation (Str ''u1'') ''r1'' ''BOOKED'',
         recommendation (Str ''u2'') ''r2'' ''BOOKED'',
         recommendation (Str ''u3'') ''r3'' ''REJECTED'',
         recommendation Null ''r4'' ''GENERATED'',
         recommendation (Str ''u5'') ''r5'' ''BOOKED'',
         recommendation (Str ''u6'') ''r6'' ''BOOKED'',
         recommendation (Str ''u7'') ''r7'' ''BOOKED'']\<rparr>"

definition labelled_recommendation ::
    "cell \<Rightarrow> string \<Rightarrow> string \<Rightarrow> real \<Rightarrow> real \<Rightarrow> cell \<Rightarrow> string \<Rightarrow> row" where
  "labelled_recommendation user rid status score flag delay kind =
     [''user_id'' \<mapsto> user, ''recommendation_id'' \<mapsto> Str rid, ''status'' \<mapsto> Str status,
      ''engagement_score'' \<mapsto> Num score, ''booking_probability'' \<mapsto> Num flag,
      ''time_to_interaction'' \<mapsto> delay, ''interaction_type'' \<mapsto> Str kind,
      ''interaction_id'' \<mapsto> Str rid]"

definition labelled_recommendations :: "row list \<Rightarrow> dataframe" where
  "labelled_recommendations rs =
     \<lparr>columns =
        [(''user_id'', Object), (''recommendation_id'', Object), (''status'', Object),
         (''engagement_score'', Float64), (''booking_probability'', Int64),
         (''time_to_interaction'', Object), (''interaction_type'', Object),
         (''interaction_id'', Object)],
      rows = rs\<rparr>"

definition seven_labelled :: dataframe where
  "seven_labelled =
     labelled_recommendations
       [labelled_recommendation (Str ''u1'') ''r1'' ''BOOKED'' 5 1 Null ''BOOKED'',
        labelled_recommendation (Str ''u2'') ''r2'' ''BOOKED'' 5 1 Null ''BOOKED'',
        labelled_recommendation (Str ''u3'') ''r3'' ''REJECTED'' (- 1) 0 Null ''REJECTED'',
        labelled_recommendation Null ''r4'' ''GENERATED'' 0 0 Null ''NOT_VIEWED'',
        labelled_recommendation (Str ''u5'') ''r5'' ''BOOKED'' 5 1 Null ''BOOKED'',
        labelled_recommendation (Str ''u6'') ''r6'' ''BOOKED'' 5 1 Null ''BOOKED'',
        labelled_recommendation (Str ''u7'') ''r7'' ''BOOKED'' 5 1 Null ''BOOKED'']"

definition six_balanced :: dataframe where
  "six_balanced =
     labelled_recommendations
       [labelled_recommendation Null ''r4'' ''GENERATED'' 0 0 Null ''NOT_VIEWED'',
        labelled_recommendation (Str ''u7'') ''r7'' ''BOOKED'' 5 1 Null ''BOOKED'',
        labelled_recommendation (Str ''u6'') ''r6'' ''BOOKED'' 5 1 Null ''BOOKED'',
        labelled_recommendation (Str ''u5'') ''r5'' ''BOOKED'' 5 1 Null ''BOOKED'',
        labelled_recommendation (Str ''u2'') ''r2'' ''BOOKED'' 5 1 Null ''BOOKED'',
        labelled_recommendation (Str ''u1'') ''r1'' ''BOOKED'' 5 1 Null ''BOOKED'']"

definition five_cleaned :: dataframe where
  "five_cleaned =
     labelled_recommendations
       [labelled_recommendation (Str ''u7'') ''r7'' ''BOOKED'' 5 1 (Str ''UNKNOWN'') ''BOOKED'',
        labelled_recommendation (Str ''u6'') ''r6'' ''BOOKED'' 5 1 (Str ''UNKNOWN'') ''BOOKED'',
        labelled_recommendation (Str ''u5'') ''r5'' ''BOOKED'' 5 1 (Str ''UNKNOWN'') ''BOOKED'',
        labelled_recommendation (Str ''u2'') ''r2'' ''BOOKED'' 5 1 (Str ''UNKNOWN'') ''BOOKED'',
        labelled_recommendation (Str ''u1'') ''r1'' ''BOOKED'' 5 1 (Str ''UNKNOWN'') ''BOOKED'']"

section \<open>Negative sampling (etl/negative\_sampling.py)\<close>

text \<open>
  \<^verbatim>\<open>add_negative_samples(df, ratio)\<close>. The ratio is a double and the product
  \<^verbatim>\<open>n_positives * ratio\<close> is the double nearest to the exact product; that
  rounding is a parameter \<open>fl\<close>, and \<^verbatim>\<open>int(...)\<close> truncates its result.
\<close>

definition add_negative_samples ::
    "(nat \<Rightarrow> nat list) \<Rightarrow> (real \<Rightarrow> real) \<Rightarrow> real \<Rightarrow> dataframe \<Rightarrow> error + dataframe" where
  "add_negative_samples perm fl ratio df =
     (case series df ''engagement_score'' of
        Inl e \<Rightarrow> Inl e
      | Inr scores \<Rightarrow>
          (case traverse (cell_gt 0) scores of
             Inl e \<Rightarrow> Inl e
           | Inr positive_mask \<Rightarrow>
               let positives = select positive_mask (rows df);
                   n_positives = length positives;
                   negatives = select (map (cell_eq 0) scores) (rows df);
                   n_negatives_available = length negatives;
                   n_target_negatives = py_int (fl (real n_positives * ratio))
               in case (if int n_negatives_available > n_target_negatives
                        then sample perm n_target_negatives negatives
                        else Inr negatives) of
                    Inl e \<Rightarrow> Inl e
                  | Inr negatives_sampled \<Rightarrow>
                      Inr (df\<lparr>rows := shuffle perm (positives @ negatives_sampled)\<rparr>)))"

text \<open>The two partitions and their sizes, as the claims speak of them.\<close>

definition score_of :: "row \<Rightarrow> cell" where
  "score_of r = row_get r ''engagement_score''"

definition is_positive :: "row \<Rightarrow> bool" where
  "is_positive r = (cell_gt 0 (score_of r) = Inr True)"

definition is_negative :: "row \<Rightarrow> bool" where
  "is_negative r = cell_eq 0 (score_of r)"




text \<open>Frames for examples: one viewed row and one row never seen.\<close>

definition scored :: "real \<Rightarrow> row" where
  "scored x = [''engagement_score'' \<mapsto> Num x]"


definition identity_perm :: "nat \<Rightarrow> nat list" where
  "identity_perm n = [0..<n]"

text \<open>
  More for examples: a permutation that is not the identity; the rounding on products
  that a double holds exactly (0.75, 2.25, 200 are such), which is no rounding; three
  viewed rows and five rows never seen, numbered.
\<close>

definition reversed_perm :: "nat \<Rightarrow> nat list" where
  "reversed_perm n = rev [0..<n]"

definition no_rounding :: "real \<Rightarrow> real" where
  "no_rounding x = x"



section \<open>Data cleaning (etl/data\_cleaning.py)\<close>

text \<open>\<^verbatim>\<open>df.dropna(subset=[col])\<close>.\<close>

definition dropna :: "string \<Rightarrow> dataframe \<Rightarrow> dataframe" where
  "dropna col df = df\<lparr>rows := filter (\<lambda>r. notna (row_get r col)) (rows df)\<rparr>"

definition required_cols :: "string list" where
  "required_cols =
     [''user_id'', ''user_climate_pref'', ''recommendation_score'', ''engagement_score'']"

definition remove_missing_required :: "dataframe \<Rightarrow> dataframe" where
  "remove_missing_required df =
     fold (\<lambda>col d. if has_column d col then dropna col d else d) required_cols df"

text \<open>
  The numbers of a column, missing values skipped, and their median, mean and sample
  standard deviation (\<^verbatim>\<open>ddof=1\<close>); each is NaN, here None, when there are too few
  numbers.
\<close>

definition numbers :: "cell list \<Rightarrow> real list" where
  "numbers cells = concat (map (\<lambda>c. case c of Num x \<Rightarrow> [x] | _ \<Rightarrow> []) cells)"

definition median :: "real list \<Rightarrow> real option" where
  "median xs =
     (let s = sort xs; n = length s in
      if n = 0 then None
      else if odd n then Some (s ! (n div 2))
      else Some ((s ! (n div 2 - 1) + s ! (n div 2)) / 2))"

definition mean :: "real list \<Rightarrow> real option" where
  "mean xs = (if xs = [] then None else Some (sum_list xs / real (length xs)))"

definition std :: "real list \<Rightarrow> real option" where
  "std xs =
     (case mean xs of
        None \<Rightarrow> None
      | Some m \<Rightarrow>
          if length xs < 2 then None
          else Some (sqrt (sum_list (map (\<lambda>x. (x - m)\<^sup>2) xs) / real (length xs - 1))))"

text \<open>\<^verbatim>\<open>fillna(v)\<close> on a cell.\<close>

definition fillna :: "cell \<Rightarrow> cell \<Rightarrow> cell" where
  "fillna v c = (if isna c then v else c)"

definition column_cells :: "dataframe \<Rightarrow> string \<Rightarrow> cell list" where
  "column_cells df col = map (\<lambda>r. row_get r col) (rows df)"

definition impute_numerical :: "string \<Rightarrow> dataframe \<Rightarrow> dataframe" where
  "impute_numerical col df =
     (let missing_count = length (filter isna (column_cells df col)) in
      if missing_count > 0 then
        (case median (numbers (column_cells df col)) of
           None \<Rightarrow> df
         | Some median_val \<Rightarrow> map_column col (fillna (Num median_val)) df)
      else df)"

definition impute_categorical :: "string \<Rightarrow> dataframe \<Rightarrow> dataframe" where
  "impute_categorical col df =
     (let missing_count = length (filter isna (column_cells df col)) in
      if missing_count > 0 then map_column col (fillna (Str ''UNKNOWN'')) df else df)"

text \<open>\<^verbatim>\<open>df.select_dtypes(include=dtypes).columns\<close>.\<close>

definition select_dtypes :: "dtype list \<Rightarrow> dataframe \<Rightarrow> string list" where
  "select_dtypes dtypes df = map fst (filter (\<lambda>(n, d). d \<in> set dtypes) (columns df))"

definition impute_missing_values :: "dataframe \<Rightarrow> dataframe" where
  "impute_missing_values df =
     (let df1 = fold impute_numerical (select_dtypes [Float32, Float64, Int32, Int64] df) df
      in fold impute_categorical (select_dtypes [Object] df1) df1)"

text \<open>
  \<^verbatim>\<open>df[col].mean()\<close> and \<^verbatim>\<open>df[col].std()\<close> raise on a column that holds a string
  or a timestamp; booleans count as 0 and 1. Once they have returned, the two
  comparisons of the filter cannot raise; a missing value fails both.
\<close>

fun numeric_value :: "cell \<Rightarrow> error + real option" where
  "numeric_value Null = Inr None"
| "numeric_value (Num x) = Inr (Some x)"
| "numeric_value (Bool b) = Inr (Some (of_bool b))"
| "numeric_value (Str s) = Inl TypeError"
| "numeric_value (Time t) = Inl TypeError"

definition present :: "'a option list \<Rightarrow> 'a list" where
  "present xs = concat (map (\<lambda>x. case x of None \<Rightarrow> [] | Some v \<Rightarrow> [v]) xs)"

definition in_bounds :: "real \<Rightarrow> real \<Rightarrow> cell \<Rightarrow> bool" where
  "in_bounds lower_bound upper_bound c =
     (case c of
        Num x \<Rightarrow> (x \<ge> lower_bound \<and> x \<le> upper_bound)
      | Bool b \<Rightarrow> (of_bool b \<ge> lower_bound \<and> of_bool b \<le> upper_bound)
      | _ \<Rightarrow> False)"

definition remove_outliers_column :: "string \<Rightarrow> dataframe \<Rightarrow> error + dataframe" where
  "remove_outliers_column col df =
     (if has_column df col then
        (case traverse numeric_value (column_cells df col) of
           Inl e \<Rightarrow> Inl e
         | Inr values \<Rightarrow>
             (case (mean (present values), std (present values)) of
                (Some m, Some sd) \<Rightarrow>
                  if sd > 0 then
                    Inr (df\<lparr>rows :=
                           filter (\<lambda>r. in_bounds (m - 3 * sd) (m + 3 * sd) (row_get r col))
                             (rows df)\<rparr>)
                  else Inr df
              | _ \<Rightarrow> Inr df))
      else Inr df)"

fun remove_outliers_columns :: "string list \<Rightarrow> dataframe \<Rightarrow> error + dataframe" where
  "remove_outliers_columns [] df = Inr df"
| "remove_outliers_columns (col # cols) df =
     (case remove_outliers_column col df of
        Inl e \<Rightarrow> Inl e
      | Inr df1 \<Rightarrow> remove_outliers_columns cols df1)"

definition remove_outliers :: "dataframe \<Rightarrow> error + dataframe" where
  "remove_outliers df =
     remove_outliers_columns [''budget_max'', ''user_age'', ''item_booking_count''] df"

text \<open>
  \<^verbatim>\<open>validate_vector_ranges(df)\<close> of the cleaning stage. It touches float columns
  only, whose cells are numbers or missing, so its comparisons cannot raise.
\<close>

definition is_out_of_range :: "cell \<Rightarrow> bool" where
  "is_out_of_range c = (case c of Num x \<Rightarrow> x < 0 \<or> x > 1 | _ \<Rightarrow> False)"

definition dtype_of :: "dataframe \<Rightarrow> string \<Rightarrow> dtype option" where
  "dtype_of df col = map_of (columns df) col"

definition is_vector_column :: "string \<Rightarrow> bool" where
  "is_vector_column c =
     (contains c ''_pref'' \<or> contains c ''_level'' \<or> startswith c ''user_'' \<or>
      startswith c ''item_'')"

definition float_column :: "dataframe \<Rightarrow> string \<Rightarrow> bool" where
  "float_column df c = (has_column df c \<and> dtype_of df c \<in> set [Some Float32, Some Float64])"

definition clip_vector_column :: "string \<Rightarrow> dataframe \<Rightarrow> dataframe" where
  "clip_vector_column col df =
     (if float_column df col then
        (if length (filter is_out_of_range (column_cells df col)) > 0
         then map_column col clip_cell df else df)
      else df)"

definition data_cleaning_validate_vector_ranges :: "dataframe \<Rightarrow> dataframe" where
  "data_cleaning_validate_vector_ranges df =
     fold clip_vector_column (filter is_vector_column (colnames df)) df"

text \<open>\<^verbatim>\<open>drop_duplicates(subset=...)\<close>: the first row of every key stays.\<close>

fun keep_first :: "('a \<Rightarrow> 'k) \<Rightarrow> 'k list \<Rightarrow> 'a list \<Rightarrow> 'a list" where
  "keep_first key seen [] = []"
| "keep_first key seen (x # xs) =
     (if key x \<in> set seen then keep_first key seen xs
      else x # keep_first key (key x # seen) xs)"

definition remove_duplicates :: "dataframe \<Rightarrow> dataframe" where
  "remove_duplicates df =
     (if has_column df ''user_id'' \<and> has_column df ''recommendation_id'' then
        df\<lparr>rows := keep_first (\<lambda>r. (row_get r ''user_id'', row_get r ''recommendation_id''))
                      [] (rows df)\<rparr>
      else df)"

definition clean_dataset :: "dataframe \<Rightarrow> error + dataframe" where
  "clean_dataset df =
     (case remove_outliers (impute_missing_values (remove_missing_required df)) of
        Inl e \<Rightarrow> Inl e
      | Inr df1 \<Rightarrow> Inr (remove_duplicates (data_cleaning_validate_vector_ranges df1)))"

text \<open>
  What a cleaned frame looks like, column by column: no missing value, no number, every
  number within [0, 1].
\<close>

definition no_nulls :: "string \<Rightarrow> row list \<Rightarrow> bool" where
  "no_nulls c rs = list_all (\<lambda>r. notna (row_get r c)) rs"

definition no_numbers :: "string \<Rightarrow> row list \<Rightarrow> bool" where
  "no_numbers c rs = list_all (\<lambda>r. case row_get r c of Num x \<Rightarrow> False | _ \<Rightarrow> True) rs"

definition settled :: "string \<Rightarrow> row list \<Rightarrow> bool" where
  "settled c rs = (no_nulls c rs \<or> no_numbers c rs)"

definition all_in_range :: "string \<Rightarrow> row list \<Rightarrow> bool" where
  "all_in_range c rs = list_all (\<lambda>r. \<not> is_out_of_range (row_get r c)) rs"

text \<open>Frames for examples: a single float column of budgets.\<close>

definition budget_frame :: "real list \<Rightarrow> dataframe" where
  "budget_frame xs =
     \<lparr>columns = [(''budget_max'', Float64)],
      rows = map (\<lambda>x. [''budget_max'' \<mapsto> Num x]) xs\<rparr>"

text \<open>
  Frames for examples: recommendations with the two identifiers, one preference, the two
  scores, a budget and a segment. The raw frame has a row without user, a missing
  budget, a missing segment, a preference above 1 and two rows with one key.
\<close>

definition listing :: "cell \<Rightarrow> cell \<Rightarrow> real \<Rightarrow> cell \<Rightarrow> cell \<Rightarrow> row" where
  "listing user rid climate budget segment =
     [''user_id'' \<mapsto> user, ''recommendation_id'' \<mapsto> rid,
      ''user_climate_pref'' \<mapsto> Num climate, ''recommendation_score'' \<mapsto> Num (1 / 2),
      ''engagement_score'' \<mapsto> Num 1, ''budget_max'' \<mapsto> budget,
      ''primary_segment'' \<mapsto> segment]"

definition listings :: "row list \<Rightarrow> dataframe" where
  "listings rs =
     \<lparr>columns =
        [(''user_id'', Object), (''recommendation_id'', Object),
         (''user_climate_pref'', Float64), (''recommendation_score'', Float64),
         (''engagement_score'', Float64), (''budget_max'', Float64),
         (''primary_segment'', Object)],
      rows = rs\<rparr>"

definition raw_listings :: dataframe where
  "raw_listings =
     listings
       [listing (Str ''u1'') (Str ''r1'') (3 / 2) (Num 1000) Null,
        listing (Str ''u1'') (Str ''r1'') (1 / 4) (Num 2000) (Str ''A''),
        listing Null (Str ''r3'') (1 / 2) (Num 3000) (Str ''A''),
        listing (Str ''u2'') (Str ''r2'') (1 / 2) Null (Str ''B'')]"

definition cleaned_listings :: dataframe where
  "cleaned_listings =
     listings
       [listing (Str ''u1'') (Str ''r1'') 1 (Num 1000) (Str ''UNKNOWN''),
        listing (Str ''u2'') (Str ''r2'') (1 / 2) (Num 1500) (Str ''B'')]"

section \<open>Anonymization (etl/gdpr\_anonymization.py)\<close>

text \<open>
  \<^verbatim>\<open>hash_user_ids\<close>: \<^verbatim>\<open>hashlib.sha256(str(x).encode()).hexdigest()\<close> of every
  identifier. The digest function and Python's \<^verbatim>\<open>str\<close> are parameters.
\<close>

definition hash_user_ids :: "(cell \<Rightarrow> string) \<Rightarrow> (string \<Rightarrow> string) \<Rightarrow> dataframe \<Rightarrow> dataframe" where
  "hash_user_ids py_str sha256 df =
     (if has_column df ''user_id''
      then assign_column ''user_hash'' Object
             (\<lambda>r. Str (sha256 (py_str (row_get r ''user_id'')))) df
      else df)"

definition pii_cols :: "string list" where
  "pii_cols =
     [''user_id'', ''email'', ''firstName'', ''lastName'', ''phoneNumber'', ''phone'',
      ''dateOfBirth'', ''avatar'', ''recommendation_id'']"

definition remove_pii :: "dataframe \<Rightarrow> dataframe" where
  "remove_pii df =
     (let columns_to_drop = filter (has_column df) pii_cols in
      if columns_to_drop \<noteq> [] then drop_columns columns_to_drop df else df)"

definition region_of :: "cell \<Rightarrow> cell" where
  "region_of c =
     (case c of
        Str s \<Rightarrow> (case COUNTRY_TO_REGION s of None \<Rightarrow> Str ''Other'' | Some region \<Rightarrow> Str region)
      | _ \<Rightarrow> Str ''Other'')"

definition generalize_nationality :: "dataframe \<Rightarrow> dataframe" where
  "generalize_nationality df =
     (if has_column df ''user_nationality''
      then drop_columns [''user_nationality'']
             (assign_column ''user_region'' Object
                (\<lambda>r. region_of (row_get r ''user_nationality'')) df)
      else df)"

text \<open>
  \<^verbatim>\<open>pd.cut(values, bins, labels, include_lowest=True)\<close>: the label of the interval
  (lo, hi] that holds the value, the lowest edge included; no label outside the bins.
\<close>

fun cut :: "real list \<Rightarrow> string list \<Rightarrow> real \<Rightarrow> cell" where
  "cut (lo # hi # bins) (l # labels) x =
     (if lo < x \<and> x \<le> hi then Str l else cut (hi # bins) labels x)"
| "cut bins labels x = Null"

definition cut_include_lowest :: "real list \<Rightarrow> string list \<Rightarrow> real \<Rightarrow> cell" where
  "cut_include_lowest bins labels x =
     (case (bins, labels) of
        (lo # _, l # _) \<Rightarrow> if x = lo then Str l else cut bins labels x
      | _ \<Rightarrow> cut bins labels x)"

definition age_group_of :: "real option \<Rightarrow> cell" where
  "age_group_of a =
     (case a of None \<Rightarrow> Null | Some x \<Rightarrow> cut_include_lowest AGE_BINS AGE_LABELS x)"

definition bin_age :: "dataframe \<Rightarrow> error + dataframe" where
  "bin_age df =
     (if has_column df ''user_age'' then
        (case traverse numeric_value (column_cells df ''user_age'') of
           Inl e \<Rightarrow> Inl e
         | Inr ages \<Rightarrow>
             Inr (drop_columns [''user_age'']
                    (assign_values ''user_age_group'' Category (map age_group_of ages) df)))
      else Inr df)"

text \<open>
  \<^verbatim>\<open>remove_rare_categories\<close>: in every object column, a value that
  \<^verbatim>\<open>value_counts\<close> counts fewer than \<open>threshold\<close> times becomes OTHER. Missing
  values are not counted and stay.
\<close>

definition is_rare :: "nat \<Rightarrow> cell list \<Rightarrow> cell \<Rightarrow> bool" where
  "is_rare threshold cells x = (notna x \<and> count_list cells x < threshold)"

definition suppress_rare :: "nat \<Rightarrow> cell list \<Rightarrow> cell \<Rightarrow> cell" where
  "suppress_rare threshold cells x = (if is_rare threshold cells x then Str ''OTHER'' else x)"

definition remove_rare_column :: "nat \<Rightarrow> string \<Rightarrow> dataframe \<Rightarrow> dataframe" where
  "remove_rare_column threshold col df =
     (let cells = column_cells df col in
      if list_ex (is_rare threshold cells) cells
      then map_column col (suppress_rare threshold cells) df
      else df)"

definition remove_rare_categories :: "nat \<Rightarrow> dataframe \<Rightarrow> dataframe" where
  "remove_rare_categories threshold df =
     fold (remove_rare_column threshold) (select_dtypes [Object] df) df"

definition anonymize_dataset ::
    "(cell \<Rightarrow> string) \<Rightarrow> (string \<Rightarrow> string) \<Rightarrow> dataframe \<Rightarrow> error + dataframe" where
  "anonymize_dataset py_str sha256 df =
     (case bin_age (generalize_nationality (hash_user_ids py_str sha256 df)) of
        Inl e \<Rightarrow> Inl e
      | Inr df1 \<Rightarrow> Inr (remove_pii (remove_rare_categories 10 df1)))"

text \<open>
  For examples: a \<^verbatim>\<open>str\<close> that is right on strings, a stand-in digest that is
  injective, and a frame of two users with one row each.
\<close>

definition str_of_string :: "cell \<Rightarrow> string" where
  "str_of_string c = (case c of Str s \<Rightarrow> s | _ \<Rightarrow> ''None'')"

definition tagged :: "string \<Rightarrow> string" where
  "tagged s = ''#'' @ s"

definition two_users :: dataframe where
  "two_users =
     \<lparr>columns = [(''user_id'', Object)],
      rows = [[''user_id'' \<mapsto> Str ''u1''], [''user_id'' \<mapsto> Str ''u2'']]\<rparr>"

text \<open>
  The row that anonymization makes of each of the five cleaned bookings, none of whose
  strings occurs ten times, and frames of \<open>k\<close> such rows.
\<close>

definition anonymous_booking :: row where
  "anonymous_booking =
     [''status'' \<mapsto> Str ''OTHER'', ''engagement_score'' \<mapsto> Num 5,
      ''booking_probability'' \<mapsto> Num 1, ''time_to_interaction'' \<mapsto> Str ''OTHER'',
      ''interaction_type'' \<mapsto> Str ''OTHER'', ''interaction_id'' \<mapsto> Str ''OTHER'',
      ''user_hash'' \<mapsto> Str ''OTHER'']"

definition anonymous_bookings :: "nat \<Rightarrow> dataframe" where
  "anonymous_bookings k =
     \<lparr>columns =
        [(''status'', Object), (''engagement_score'', Float64),
         (''booking_probability'', Int64), (''time_to_interaction'', Object),
         (''interaction_type'', Object), (''interaction_id'', Object),
         (''user_hash'', Object)],
      rows = replicate k anonymous_booking\<rparr>"

section \<open>Validation (utils/validators.py)\<close>

definition validate_required_columns :: "dataframe \<Rightarrow> error + bool" where
  "validate_required_columns df =
     (if list_ex (\<lambda>c. \<not> has_column df c) REQUIRED_COLUMNS then Inl ValueError
      else if list_ex (\<lambda>c. list_ex (\<lambda>r. isna (row_get r c)) (rows df)) REQUIRED_COLUMNS
        then Inl ValueError
      else Inr True)"

text \<open>
  \<^verbatim>\<open>validate_vector_ranges(df)\<close> of the validators: the loop over the columns whose
  name ends in \<^verbatim>\<open>_pref\<close>, \<^verbatim>\<open>_level\<close> or \<^verbatim>\<open>_type\<close>. It looks at no dtype. It
  clips the frame in place and returns True; the model returns the frame as it leaves it.
\<close>

fun clip_vector_columns :: "string list \<Rightarrow> dataframe \<Rightarrow> error + dataframe" where
  "clip_vector_columns [] df = Inr df"
| "clip_vector_columns (col # cols) df =
     (if has_column df col then
        (case series df col of
           Inl e \<Rightarrow> Inl e
         | Inr cells \<Rightarrow>
             (case out_of_range_count cells of
                Inl e \<Rightarrow> Inl e
              | Inr out_of_range \<Rightarrow>
                  clip_vector_columns cols
                    (if out_of_range > 0 then map_column col clip_cell df else df)))
      else clip_vector_columns cols df)"

definition validators_validate_vector_ranges :: "dataframe \<Rightarrow> error + dataframe" where
  "validators_validate_vector_ranges df =
     clip_vector_columns
       (filter (\<lambda>c. endswith c ''_pref'' \<or> endswith c ''_level'' \<or> endswith c ''_type'')
          (colnames df))
       df"

definition validate_engagement_scores :: "dataframe \<Rightarrow> error + bool" where
  "validate_engagement_scores df =
     (if has_column df ''engagement_score'' \<and>
         list_ex (\<lambda>r. \<not> list_ex (\<lambda>k. cell_eq k (row_get r ''engagement_score''))
                          [- 1, 0, 1, 3, 5]) (rows df)
      then Inl ValueError else Inr True)"

definition validate_booking_probability :: "dataframe \<Rightarrow> error + bool" where
  "validate_booking_probability df =
     (if has_column df ''booking_probability'' \<and>
         \<not> list_all (\<lambda>r. list_ex (\<lambda>k. cell_eq k (row_get r ''booking_probability'')) [0, 1])
              (rows df)
      then Inl ValueError else Inr True)"

text \<open>
  \<^verbatim>\<open>validate_dataset(df)\<close> runs the four checks in order and returns True; the model
  returns the frame after the in-place clipping.
\<close>

definition validate_dataset :: "dataframe \<Rightarrow> error + dataframe" where
  "validate_dataset df =
     (case validate_required_columns df of
        Inl e \<Rightarrow> Inl e
      | Inr _ \<Rightarrow>
          (case validators_validate_vector_ranges df of
             Inl e \<Rightarrow> Inl e
           | Inr df1 \<Rightarrow>
               (case validate_engagement_scores df1 of
                  Inl e \<Rightarrow> Inl e
                | Inr _ \<Rightarrow>
                    (case validate_booking_probability df1 of
                       Inl e \<Rightarrow> Inl e
                     | Inr _ \<Rightarrow> Inr df1))))"

text \<open>A frame as label construction leaves it, cut down to two columns.\<close>

definition labelled_example :: dataframe where
  "labelled_example =
     \<lparr>columns = [(''user_climate_pref'', Float64), (''interaction_type'', Object)],
      rows = [[''user_climate_pref'' \<mapsto> Num (1 / 2), ''interaction_type'' \<mapsto> Str ''BOOKED'']]\<rparr>"

section \<open>Export and the end of the run (etl/export\_dataset.py, scripts/run\_etl.py)\<close>

text \<open>
  The files of \<^verbatim>\<open>data/datasets/v<version>/\<close>, in the order they are written. The
  stratified split is scikit-learn's \<^verbatim>\<open>train_test_split\<close> and is a parameter: it
  gives the two partitions or raises.
\<close>

datatype artifact =
  TrainParquet | TestParquet | TrainSampleCsv | MetadataJson | DistributionsPng
  | QualityReportHtml

type_synonym splitter = "dataframe \<Rightarrow> error + dataframe \<times> dataframe"

text \<open>
  \<^verbatim>\<open>split_and_export\<close>: reads the engagement score for the stratification, splits,
  and writes both partitions and the sample at once.
\<close>

definition split_and_export ::
    "splitter \<Rightarrow> dataframe \<Rightarrow> artifact list \<Rightarrow> artifact list \<times> (error + dataframe \<times> dataframe)" where
  "split_and_export train_test_split df files =
     (case series df ''engagement_score'' of
        Inl e \<Rightarrow> (files, Inl e)
      | Inr _ \<Rightarrow>
          (case train_test_split df of
             Inl e \<Rightarrow> (files, Inl e)
           | Inr (train_df, test_df) \<Rightarrow>
               (files @ [TrainParquet, TestParquet, TrainSampleCsv], Inr (train_df, test_df))))"

definition generate_metadata ::
    "dataframe \<Rightarrow> dataframe \<Rightarrow> artifact list \<Rightarrow> artifact list \<times> (error + unit)" where
  "generate_metadata train_df test_df files =
     (if has_column train_df ''engagement_score'' \<and> has_column train_df ''booking_probability''
      then (files @ [MetadataJson], Inr ())
      else (files, Inl KeyError))"

definition generate_quality_report ::
    "dataframe \<Rightarrow> dataframe \<Rightarrow> artifact list \<Rightarrow> artifact list \<times> (error + unit)" where
  "generate_quality_report train_df test_df files =
     (if length (rows train_df) + length (rows test_df) = 0 then (files, Inl ZeroDivisionError)
      else if \<not> (has_column train_df ''engagement_score'' \<and>
                  has_column train_df ''booking_probability'')
        then (files, Inl KeyError)
      else (files @ [DistributionsPng, QualityReportHtml], Inr ()))"

text \<open>
  Step 10 of \<^verbatim>\<open>run_etl_pipeline\<close> and what follows it: export, validation of both
  partitions, metadata, quality report. An exception leaves the files written so far
  (the handler logs and re-raises), and the script exits with 1; otherwise with 0.
\<close>

definition export_and_validate ::
    "splitter \<Rightarrow> dataframe \<Rightarrow> artifact list \<Rightarrow> artifact list \<times> (error + unit)" where
  "export_and_validate train_test_split final_df files =
     (case split_and_export train_test_split final_df files of
        (files1, Inl e) \<Rightarrow> (files1, Inl e)
      | (files1, Inr (train_df, test_df)) \<Rightarrow>
          (case validate_dataset train_df of
             Inl e \<Rightarrow> (files1, Inl e)
           | Inr train_df1 \<Rightarrow>
               (case validate_dataset test_df of
                  Inl e \<Rightarrow> (files1, Inl e)
                | Inr test_df1 \<Rightarrow>
                    (case generate_metadata train_df1 test_df1 files1 of
                       (files2, Inl e) \<Rightarrow> (files2, Inl e)
                     | (files2, Inr _) \<Rightarrow>
                         generate_quality_report train_df1 test_df1 files2))))"

definition exit_code :: "error + unit \<Rightarrow> int" where
  "exit_code outcome = (case outcome of Inl e \<Rightarrow> 1 | Inr _ \<Rightarrow> 0)"

text \<open>
  For examples: the split of a five-row frame into four train rows and one test row, the
  sizes \<^verbatim>\<open>test_size=0.2\<close> gives; it is used on frames of five equal rows with one
  engagement score, where every stratified split of those sizes gives the same two
  partitions. And frames of \<open>k\<close> equal rows with every required column, whose booking
  probability is \<open>p\<close>.
\<close>

definition four_to_one :: splitter where
  "four_to_one df =
     (if length (rows df) = 5
      then Inr (df\<lparr>rows := take 4 (rows df)\<rparr>, df\<lparr>rows := drop 4 (rows df)\<rparr>)
      else Inl ValueError)"

definition required_row :: "real \<Rightarrow> row" where
  "required_row p =
     [''user_hash'' \<mapsto> Str ''h'', ''user_climate_pref'' \<mapsto> Num 0,
      ''user_culture_pref'' \<mapsto> Num 0, ''user_budget_level'' \<mapsto> Num 0,
      ''user_activity_level'' \<mapsto> Num 0, ''item_destination_id'' \<mapsto> Str ''d'',
      ''recommendation_score'' \<mapsto> Num 0, ''engagement_score'' \<mapsto> Num 5,
      ''booking_probability'' \<mapsto> Num p]"

definition required_frame :: "nat \<Rightarrow> real \<Rightarrow> dataframe" where
  "required_frame k p =
     \<lparr>columns =
        [(''user_hash'', Object), (''user_climate_pref'', Float64),
         (''user_culture_pref'', Float64), (''user_budget_level'', Float64),
         (''user_activity_level'', Float64), (''item_destination_id'', Object),
         (''recommendation_score'', Float64), (''engagement_score'', Float64),
         (''booking_probability'', Int64)],
      rows = replicate k (required_row p)\<rparr>"

section \<open>Label construction: results\<close>

lemma lookup_scores:
  "lookup ENGAGEMENT_SCORES ''BOOKED'' = Inr 5"
  "lookup ENGAGEMENT_SCORES ''CLICKED'' = Inr 3"
  "lookup ENGAGEMENT_SCORES ''VIEWED'' = Inr 1"
  "lookup ENGAGEMENT_SCORES ''REJECTED'' = Inr (- 1)"
  "lookup ENGAGEMENT_SCORES ''NOT_VIEWED'' = Inr 0"
  by (simp_all add: lookup_def ENGAGEMENT_SCORES_def)

text \<open>
  Claim C1. On every row of a frame that has a status column, the engagement score is
  the score of the first stage, in the order booked (5.0), clicked (3.0), viewed (1.0),
  rejected (-1.0), whose event timestamp is non-null or whose name equals the status
  string; it is 0.0 when no stage matches. The score is returned, not an error.
\<close>

theorem engagement_score_precedence:
  assumes "r ''status'' = Some status"
  shows "calculate_engagement_score r = Inr (precedence_score r status)"
  using assms
  by (simp add: calculate_engagement_score_def precedence_score_def stage_precedence_def
      stage_selected_def lookup_scores)

theorem engagement_score_precedence_witness:
  "calculate_engagement_score
     [''status'' \<mapsto> Str ''VIEWED'', ''clickedAt'' \<mapsto> Time 7, ''rejectedAt'' \<mapsto> Time 9]
   = Inr 3"
  using engagement_score_precedence
    [of "[''status'' \<mapsto> Str ''VIEWED'', ''clickedAt'' \<mapsto> Time 7, ''rejectedAt'' \<mapsto> Time 9]"
        "Str ''VIEWED''"]
  by (simp add: precedence_score_def stage_precedence_def stage_selected_def
      row_get_def notna_def)



section \<open>Negative sampling: results\<close>

lemma select_traverse:
  "traverse f (map g rs) = Inr ms \<Longrightarrow> select ms rs = filter (\<lambda>r. f (g r) = Inr True) rs"
proof (induction rs arbitrary: ms)
  case Nil
  then show ?case by (simp add: select_def)
next
  case (Cons r rs)
  then show ?case
    by (auto simp: select_def split: sum.splits)
qed

lemma select_map: "select (map P xs) xs = filter P xs"
  by (induction xs) (simp_all add: select_def)

lemma select_map2: "select (map P (map g xs)) xs = filter (\<lambda>x. P (g x)) xs"
  by (induction xs) (simp_all add: select_def)

lemma mset_map_nth:
  assumes "mset p = mset [0..<length xs]"
  shows "mset (map (\<lambda>i. xs ! i) p) = mset xs"
proof -
  have "mset (map (\<lambda>i. xs ! i) p) = image_mset (\<lambda>i. xs ! i) (mset p)" by simp
  also have "\<dots> = image_mset (\<lambda>i. xs ! i) (mset [0..<length xs])" using assms by simp
  also have "\<dots> = mset (map (\<lambda>i. xs ! i) [0..<length xs])" by simp
  also have "\<dots> = mset xs" by (simp add: map_nth)
  finally show ?thesis .
qed

lemma mset_shuffle:
  assumes "is_permutation perm"
  shows "mset (shuffle perm xs) = mset xs"
proof -
  have "mset (perm (length xs)) = mset [0..<length xs]"
    using assms unfolding is_permutation_def by blast
  then show ?thesis unfolding shuffle_def by (rule mset_map_nth)
qed

lemma sample_sub:
  assumes "is_permutation perm" "sample perm n xs = Inr ys"
  shows "mset ys \<subseteq># mset xs \<and> int (length ys) = n"
proof -
  let ?p = "perm (length xs)"
  from assms(2) have n: "0 \<le> n" "n \<le> int (length xs)"
    and ys: "ys = map (\<lambda>i. xs ! i) (take (nat n) ?p)"
    by (auto simp: sample_def split: if_splits)
  have p: "mset ?p = mset [0..<length xs]" using assms(1) unfolding is_permutation_def by blast
  then have lp: "length ?p = length xs"
    by (metis length_upt mset_eq_length minus_nat.diff_0)
  have "mset (take (nat n) ?p) \<subseteq># mset ?p"
    by (metis append_take_drop_id mset_append mset_subset_eq_add_left)
  then have "image_mset (\<lambda>i. xs ! i) (mset (take (nat n) ?p)) \<subseteq># image_mset (\<lambda>i. xs ! i) (mset ?p)"
    by (rule image_mset_subseteq_mono)
  moreover have "image_mset (\<lambda>i. xs ! i) (mset ?p) = mset xs"
    using mset_map_nth[OF p] by (simp del: mset_upt)
  ultimately have "mset ys \<subseteq># mset xs" by (simp add: ys)
  moreover have "int (length ys) = n" using n lp by (simp add: ys)
  ultimately show ?thesis by simp
qed



lemma is_positive_eq: "is_positive = (\<lambda>r. cell_gt 0 (row_get r ''engagement_score'') = Inr True)"
  by (simp add: fun_eq_iff is_positive_def score_of_def)

lemma is_negative_eq: "is_negative = (\<lambda>r. cell_eq 0 (row_get r ''engagement_score''))"
  by (simp add: fun_eq_iff is_negative_def score_of_def)


lemma add_negative_samples_Inr:
  assumes "add_negative_samples perm fl ratio df = Inr df'" "is_permutation perm"
  shows "\<exists>sampled.
           mset sampled \<subseteq># mset (filter is_negative (rows df)) \<and>
           int (length sampled) =
             min (int (length (filter is_negative (rows df))))
                 (py_int (fl (real (length (filter is_positive (rows df))) * ratio))) \<and>
           rows df' = shuffle perm (filter is_positive (rows df) @ sampled) \<and>
           columns df' = columns df"
proof -
  let ?c = "''engagement_score''"
  let ?scores = "map (\<lambda>r. row_get r ?c) (rows df)"
  let ?pos = "filter is_positive (rows df)"
  let ?neg = "filter is_negative (rows df)"
  let ?t = "py_int (fl (real (length ?pos) * ratio))"
  from assms(1) have ser: "series df ?c = Inr ?scores"
    by (auto simp: add_negative_samples_def series_def split: if_splits sum.splits)
  from assms(1) ser obtain pm where pm: "traverse (cell_gt 0) ?scores = Inr pm"
    by (auto simp: add_negative_samples_def split: sum.splits)
  have pos: "select pm (rows df) = ?pos"
    using select_traverse[OF pm] by (simp add: is_positive_eq)
  have neg: "select (map (cell_eq 0) ?scores) (rows df) = ?neg"
    by (simp add: select_map is_negative_eq comp_def)
  define res where
    "res = (if int (length ?neg) > ?t then sample perm ?t ?neg else Inr ?neg)"
  have eq: "add_negative_samples perm fl ratio df =
      (case res of Inl e \<Rightarrow> Inl e
       | Inr ns \<Rightarrow> Inr (df\<lparr>rows := shuffle perm (?pos @ ns)\<rparr>))"
    by (simp only: add_negative_samples_def ser pm sum.case Let_def pos neg res_def)
  from assms(1) obtain s where res: "res = Inr s"
    and df': "df' = df\<lparr>rows := shuffle perm (?pos @ s)\<rparr>"
    unfolding eq by (cases res) auto
  from res have s:
    "(if int (length ?neg) > ?t then sample perm ?t ?neg else Inr ?neg) = Inr s"
    by (simp add: res_def)
  have "mset s \<subseteq># mset ?neg \<and> int (length s) = min (int (length ?neg)) ?t"
  proof (cases "int (length ?neg) > ?t")
    case True
    with s have "sample perm ?t ?neg = Inr s" by simp
    from sample_sub[OF assms(2) this] True show ?thesis by simp
  next
    case False
    with s have "s = ?neg" by simp
    with False show ?thesis by simp
  qed
  with df' show ?thesis by auto
qed




lemma identity_perm_is_permutation: "is_permutation identity_perm"
  by (simp add: is_permutation_def identity_perm_def)

lemma reversed_perm_is_permutation: "is_permutation reversed_perm"
  by (simp add: is_permutation_def reversed_perm_def)












text \<open>
  Claim C4. A row whose engagement score is -1.0 is neither positive nor negative, and
  no row of the stage's output has score -1.0: the output rows are, up to order, the
  positive rows of the input together with rows drawn without replacement from its
  negative rows.
\<close>

theorem rejected_rows_dropped:
  assumes "is_permutation perm" "add_negative_samples perm fl ratio df = Inr df'"
  shows "(\<forall>r. score_of r = Num (- 1) \<longrightarrow> \<not> is_positive r \<and> \<not> is_negative r) \<and>
         (\<forall>r \<in> set (rows df'). score_of r \<noteq> Num (- 1)) \<and>
         (\<exists>sampled. mset sampled \<subseteq># mset (filter is_negative (rows df)) \<and>
            mset (rows df') = mset (filter is_positive (rows df)) + mset sampled)"
proof -
  from add_negative_samples_Inr[OF assms(2,1)] obtain s where
    sub: "mset s \<subseteq># mset (filter is_negative (rows df))" and
    rws: "rows df' = shuffle perm (filter is_positive (rows df) @ s)"
    by blast
  have m: "mset (rows df') = mset (filter is_positive (rows df)) + mset s"
    using rws mset_shuffle[OF assms(1), of "filter is_positive (rows df) @ s"] by simp
  have rej: "\<not> is_positive r \<and> \<not> is_negative r" if "score_of r = Num (- 1)" for r
    using that by (simp add: is_positive_def is_negative_def)
  have "set s \<subseteq> set (filter is_negative (rows df))"
    using sub by (metis set_mset_mono set_mset_mset)
  moreover have "set (rows df') = set (filter is_positive (rows df)) \<union> set s"
    using m by (metis set_mset_mset set_mset_union)
  ultimately have "set (rows df') \<subseteq> {r. is_positive r \<or> is_negative r}"
    by auto
  then have "\<forall>r \<in> set (rows df'). score_of r \<noteq> Num (- 1)"
    using rej by blast
  then show ?thesis using rej sub m by blast
qed

theorem rejected_rows_dropped_witness:
  "is_permutation identity_perm \<and>
   add_negative_samples identity_perm no_rounding 2
     \<lparr>columns = [(''engagement_score'', Float64)], rows = [scored (- 1), scored 3]\<rparr>
   = Inr \<lparr>columns = [(''engagement_score'', Float64)], rows = [scored 3]\<rparr> \<and>
   score_of (scored 3) \<noteq> Num (- 1)"
proof -
  let ?df = "\<lparr>columns = [(''engagement_score'', Float64)], rows = [scored (- 1), scored 3]\<rparr>"
  have a: "series ?df ''engagement_score'' = Inr [Num (- 1), Num 3]"
    by (simp add: series_def has_column_def colnames_def scored_def row_get_def)
  have b: "add_negative_samples identity_perm no_rounding 2 ?df
     = Inr \<lparr>columns = [(''engagement_score'', Float64)], rows = [scored 3]\<rparr>"
    by (simp add: add_negative_samples_def a select_def
        py_int_def no_rounding_def sample_def shuffle_def identity_perm_def)
  from rejected_rows_dropped[OF identity_perm_is_permutation b]
  have "score_of (scored 3) \<noteq> Num (- 1)" by simp
  with b identity_perm_is_permutation show ?thesis by simp
qed

section \<open>Validation: results\<close>

lemma labelled_example_vector_columns:
  "filter (\<lambda>c. endswith c ''_pref'' \<or> endswith c ''_level'' \<or> endswith c ''_type'')
     (colnames labelled_example) = [''user_climate_pref'', ''interaction_type'']"
  by (simp add: labelled_example_def colnames_def endswith_def suffix_to_prefix)

lemma labelled_example_series:
  "series labelled_example ''user_climate_pref'' = Inr [Num (1 / 2)]"
  "series labelled_example ''interaction_type'' = Inr [Str ''BOOKED'']"
  "has_column labelled_example ''user_climate_pref''"
  "has_column labelled_example ''interaction_type''"
  by (simp_all add: labelled_example_def series_def has_column_def colnames_def row_get_def)

text \<open>
  Claim C7. The claim has the validators' range check return normally on every frame,
  string-valued \<^verbatim>\<open>_type\<close> columns included. On a frame whose
  \<^verbatim>\<open>interaction_type\<close> column holds the string BOOKED, as label construction
  writes it, the check raises TypeError: it orders the column against 0 without looking
  at its dtype, which the cleaning stage's check of the same name does.
\<close>

theorem validate_vector_ranges_raises_on_strings:
  "validators_validate_vector_ranges labelled_example = Inl TypeError"
  by (simp add: validators_validate_vector_ranges_def labelled_example_vector_columns
      labelled_example_series out_of_range_count_def)

section \<open>Export: results\<close>

lemma required_frame_columns:
  "colnames (required_frame k p) = REQUIRED_COLUMNS"
  by (simp add: required_frame_def colnames_def REQUIRED_COLUMNS_def)

lemma required_frame_rows: "rows (required_frame k p) = replicate k (required_row p)"
  by (simp add: required_frame_def)

lemma required_frame_required: "validate_required_columns (required_frame k p) = Inr True"
proof -
  have "\<not> isna (row_get (required_row p) c)" if "c \<in> set REQUIRED_COLUMNS" for c
    using that by (auto simp: REQUIRED_COLUMNS_def required_row_def row_get_def isna_def)
  then show ?thesis
    by (auto simp: validate_required_columns_def has_column_def required_frame_columns
        required_frame_rows list_ex_iff)
qed

lemma traverse_replicate: "f x = Inr y \<Longrightarrow> traverse f (replicate k x) = Inr (replicate k y)"
  by (induction k) simp_all

lemma zeros_in_range: "out_of_range_count (replicate k (Num 0)) = Inr 0"
proof -
  have "filter id (map2 (\<or>) (replicate k False) (replicate k False)) = []"
    by (induction k) simp_all
  moreover have "traverse (cell_lt 0) (replicate k (Num 0)) = Inr (replicate k False)"
    by (rule traverse_replicate) simp
  moreover have "traverse (cell_gt 1) (replicate k (Num 0)) = Inr (replicate k False)"
    by (rule traverse_replicate) simp
  ultimately show ?thesis
    by (simp add: out_of_range_count_def)
qed

lemma required_frame_vectors:
  "validators_validate_vector_ranges (required_frame k p) = Inr (required_frame k p)"
proof -
  have cols: "filter (\<lambda>c. endswith c ''_pref'' \<or> endswith c ''_level'' \<or> endswith c ''_type'')
      (colnames (required_frame k p)) =
    [''user_climate_pref'', ''user_culture_pref'', ''user_budget_level'', ''user_activity_level'']"
    by (simp add: required_frame_columns REQUIRED_COLUMNS_def endswith_def suffix_to_prefix)
  have ser: "c \<in> set [''user_climate_pref'', ''user_culture_pref'', ''user_budget_level'',
      ''user_activity_level''] \<Longrightarrow> series (required_frame k p) c = Inr (replicate k (Num 0))"
    for c
    by (auto simp: series_def has_column_def required_frame_columns REQUIRED_COLUMNS_def
        required_frame_rows required_row_def row_get_def)
  have has: "c \<in> set [''user_climate_pref'', ''user_culture_pref'', ''user_budget_level'',
      ''user_activity_level''] \<Longrightarrow> has_column (required_frame k p) c" for c
    by (auto simp: has_column_def required_frame_columns REQUIRED_COLUMNS_def)
  show ?thesis
    by (simp add: validators_validate_vector_ranges_def cols ser has zeros_in_range)
qed

lemma required_frame_invalid:
  assumes "0 < k"
  shows "validate_dataset (required_frame k 2) = Inl ValueError"
proof -
  have es: "validate_engagement_scores (required_frame k 2) = Inr True"
    by (simp add: validate_engagement_scores_def required_frame_rows list_ex_iff)
       (simp add: required_row_def row_get_def)
  have "\<not> list_ex (\<lambda>v. cell_eq v (row_get (required_row 2) ''booking_probability'')) [0, 1]"
    by (simp add: required_row_def row_get_def)
  with assms have bp: "validate_booking_probability (required_frame k 2) = Inl ValueError"
    by (simp add: validate_booking_probability_def required_frame_rows list_all_iff
        has_column_def required_frame_columns REQUIRED_COLUMNS_def)
  show ?thesis
    by (simp add: validate_dataset_def required_frame_required required_frame_vectors es bp)
qed

lemma required_frame_four_to_one:
  "four_to_one (required_frame 5 p) = Inr (required_frame 4 p, required_frame 1 p)"
  by (simp add: four_to_one_def required_frame_def)

lemma required_frame_split:
  "split_and_export four_to_one (required_frame 5 p) files =
     (files @ [TrainParquet, TestParquet, TrainSampleCsv],
      Inr (required_frame 4 p, required_frame 1 p))"
  by (simp add: split_and_export_def series_def has_column_def required_frame_columns
      REQUIRED_COLUMNS_def required_frame_four_to_one)

text \<open>
  Claim C8, as the code has it. \<^verbatim>\<open>split_and_export\<close> has written the train file,
  the test file and the sample before validation starts. When validation of the train or
  of the test partition fails, the run stops with that error and exit code 1, and the
  files of the run are exactly those three on top of what was there: no metadata, no
  plot and no quality report is written.
\<close>

theorem validation_failure_aborts_after_export:
  assumes "split_and_export train_test_split final_df files = (files1, Inr (train_df, test_df))"
    and "validate_dataset train_df = Inl e \<or>
         (\<exists>train_df1. validate_dataset train_df = Inr train_df1 \<and>
                      validate_dataset test_df = Inl e)"
  shows "export_and_validate train_test_split final_df files =
           (files @ [TrainParquet, TestParquet, TrainSampleCsv], Inl e) \<and>
         exit_code (snd (export_and_validate train_test_split final_df files)) = 1"
proof -
  from assms(1) have f1: "files1 = files @ [TrainParquet, TestParquet, TrainSampleCsv]"
    by (auto simp: split_and_export_def split: sum.splits prod.splits)
  from assms(2) have "export_and_validate train_test_split final_df files = (files1, Inl e)"
    by (auto simp: export_and_validate_def assms(1))
  with f1 show ?thesis by (simp add: exit_code_def)
qed

theorem validation_failure_aborts_after_export_witness:
  "split_and_export four_to_one (required_frame 5 2) [] =
     ([TrainParquet, TestParquet, TrainSampleCsv],
      Inr (required_frame 4 2, required_frame 1 2)) \<and>
   validate_dataset (required_frame 4 2) = Inl ValueError \<and>
   export_and_validate four_to_one (required_frame 5 2) [] =
     ([TrainParquet, TestParquet, TrainSampleCsv], Inl ValueError) \<and>
   exit_code (snd (export_and_validate four_to_one (required_frame 5 2) [])) = 1"
proof -
  have split: "split_and_export four_to_one (required_frame 5 2) [] =
     ([TrainParquet, TestParquet, TrainSampleCsv],
      Inr (required_frame 4 2, required_frame 1 2))"
    by (simp add: required_frame_split)
  have invalid: "validate_dataset (required_frame 4 2) = Inl ValueError"
    by (simp add: required_frame_invalid)
  have failed: "validate_dataset (required_frame 4 2) = Inl ValueError \<or>
      (\<exists>train_df1. validate_dataset (required_frame 4 2) = Inr train_df1 \<and>
                   validate_dataset (required_frame 1 2) = Inl ValueError)"
    using invalid by (rule disjI1)
  note run = validation_failure_aborts_after_export[OF split failed, unfolded append_Nil]
  show ?thesis
    by (intro conjI split invalid run[THEN conjunct1] run[THEN conjunct2])
qed

text \<open>
  Claim C8 as stated has no train or test file committed for an invalid run. Five equal
  rows with every required column, engagement score 5.0 and booking probability 2: the
  stratified split gives four train rows and one test row, validation of the train
  partition fails on the booking probability, and the run that started with no file
  leaves the train file, the test file and the sample.
\<close>

theorem validation_failure_files_counterexample:
  "four_to_one (required_frame 5 2) = Inr (required_frame 4 2, required_frame 1 2) \<and>
   validate_dataset (required_frame 4 2) = Inl ValueError \<and>
   export_and_validate four_to_one (required_frame 5 2) [] =
     ([TrainParquet, TestParquet, TrainSampleCsv], Inl ValueError)"
  by (simp add: export_and_validate_def required_frame_split required_frame_invalid
      required_frame_four_to_one)

section \<open>Feature engineering: results\<close>

lemma bad_birth_date_age:
  "age_features only_timestamps now bad_birth_date =
     \<lparr>columns = [(''dateOfBirth'', Datetime64), (''user_age'', Float64)],
      rows = [[''dateOfBirth'' \<mapsto> Null, ''user_age'' \<mapsto> Null]]\<rparr>"
  by (simp add: age_features_def bad_birth_date_def has_column_def colnames_def
      assign_column_def assign_values_def set_dtype_def row_get_def to_datetime_coerce_def
      only_timestamps_def isna_def user_age_of_def nullable_int_dtype_def Let_def)

text \<open>
  Claim C6. The claim has every unparseable date field give null features and the stage
  return. The creation timestamp is converted without \<^verbatim>\<open>errors='coerce'\<close>, which
  the birth date and the departure date are given: a creation timestamp that does not
  parse makes the stage raise ValueError, while a birth date that does not parse gives a
  null age and the stage returns.
\<close>

theorem unparseable_created_at_raises:
  "calculate_temporal_features only_timestamps now month dayofweek bad_created_at
     = Inl ValueError \<and>
   (\<exists>df. calculate_temporal_features only_timestamps now month dayofweek bad_birth_date
            = Inr df \<and>
         map (\<lambda>r. row_get r ''user_age'') (rows df) = [Null])"
proof -
  have a: "age_features only_timestamps now bad_created_at = bad_created_at"
    by (simp add: age_features_def bad_created_at_def has_column_def colnames_def)
  have b: "timestamp_features only_timestamps month dayofweek bad_created_at = Inl ValueError"
    by (simp add: timestamp_features_def bad_created_at_def has_column_def colnames_def
        row_get_def to_datetime_raise_def only_timestamps_def isna_def)
  have c: "calculate_temporal_features only_timestamps now month dayofweek bad_created_at
     = Inl ValueError"
    by (simp add: calculate_temporal_features_def a b)
  have d: "calculate_temporal_features only_timestamps now month dayofweek bad_birth_date
     = Inr \<lparr>columns = [(''dateOfBirth'', Datetime64), (''user_age'', Float64),
                  (''days_since_last_search'', Int64), (''days_since_last_booking'', Int64)],
         rows = [[''dateOfBirth'' \<mapsto> Null, ''user_age'' \<mapsto> Null,
                  ''days_since_last_search'' \<mapsto> Num 0,
                  ''days_since_last_booking'' \<mapsto> Num 0]]\<rparr>"
    by (simp add: calculate_temporal_features_def bad_birth_date_age timestamp_features_def
        departure_features_def has_column_def colnames_def assign_column_def set_dtype_def)
  show ?thesis
    by (simp add: c d row_get_def)
qed

section \<open>Data cleaning: results\<close>

subsection \<open>Frames with other rows\<close>

lemma has_column_rows [simp]: "has_column (df\<lparr>rows := rs\<rparr>) c = has_column df c"
  by (simp add: has_column_def colnames_def)

lemma dtype_of_rows [simp]: "dtype_of (df\<lparr>rows := rs\<rparr>) c = dtype_of df c"
  by (simp add: dtype_of_def)

lemma row_get_upd: "row_get (r(c \<mapsto> v)) c' = (if c' = c then v else row_get r c')"
  by (simp add: row_get_def)

lemma columns_map_column [simp]: "columns (map_column c f df) = columns df"
  by (simp add: map_column_def)

lemma rows_map_column: "rows (map_column c f df) = map (\<lambda>r. r(c \<mapsto> f (row_get r c))) (rows df)"
  by (simp add: map_column_def)

lemma has_column_cong: "columns d = columns df \<Longrightarrow> has_column d c = has_column df c"
  by (simp add: has_column_def colnames_def)

lemma dtype_of_cong: "columns d = columns df \<Longrightarrow> dtype_of d c = dtype_of df c"
  by (simp add: dtype_of_def)

lemma fold_fixed: "(\<And>c. c \<in> set cs \<Longrightarrow> f c df = df) \<Longrightarrow> fold f cs df = df"
  by (induction cs) simp_all

lemma fold_preserves:
  assumes "\<And>c d. P d \<Longrightarrow> P (f c d)" "P df"
  shows "P (fold f cs df)"
  using assms(2) by (induction cs arbitrary: df) (simp_all add: assms(1))

lemma fold_establishes:
  assumes "\<And>c d. P c (f c d)" "\<And>c c' d. P c' d \<Longrightarrow> P c' (f c d)" "c \<in> set cs"
  shows "P c (fold f cs df)"
  using assms(3)
proof (induction cs arbitrary: df)
  case Nil
  then show ?case by simp
next
  case (Cons a cs)
  show ?case
  proof (cases "c \<in> set cs")
    case True
    then show ?thesis using Cons.IH by simp
  next
    case False
    with Cons.prems have "a = c" by simp
    have "P c (fold f cs (f c df))"
      by (rule fold_preserves[where P="P c"]) (simp_all add: assms(1,2))
    then show ?thesis using \<open>a = c\<close> by simp
  qed
qed

subsection \<open>Monotonicity\<close>

lemma no_nulls_subset: "set rs' \<subseteq> set rs \<Longrightarrow> no_nulls c rs \<Longrightarrow> no_nulls c rs'"
  by (auto simp: no_nulls_def list_all_iff)

lemma no_numbers_subset: "set rs' \<subseteq> set rs \<Longrightarrow> no_numbers c rs \<Longrightarrow> no_numbers c rs'"
  by (auto simp: no_numbers_def list_all_iff)

lemma settled_subset: "set rs' \<subseteq> set rs \<Longrightarrow> settled c rs \<Longrightarrow> settled c rs'"
  using no_nulls_subset no_numbers_subset by (auto simp: settled_def)

lemma all_in_range_subset: "set rs' \<subseteq> set rs \<Longrightarrow> all_in_range c rs \<Longrightarrow> all_in_range c rs'"
  by (auto simp: all_in_range_def list_all_iff)

subsection \<open>remove_missing_required\<close>

lemma dropna_fold:
  "fold (\<lambda>col d. if has_column d col then dropna col d else d) cs df =
     df\<lparr>rows := filter (\<lambda>r. \<forall>c \<in> set cs. has_column df c \<longrightarrow> notna (row_get r c)) (rows df)\<rparr>"
proof (induction cs arbitrary: df)
  case Nil
  then show ?case by simp
next
  case (Cons c cs)
  show ?case
    by (auto simp: Cons.IH dropna_def intro: filter_cong)
qed

lemma remove_missing_required_eq:
  "remove_missing_required df =
     df\<lparr>rows := filter (\<lambda>r. \<forall>c \<in> set required_cols. has_column df c \<longrightarrow> notna (row_get r c))
                    (rows df)\<rparr>"
  by (simp add: remove_missing_required_def dropna_fold)

lemma remove_missing_required_no_nulls:
  "c \<in> set required_cols \<Longrightarrow> has_column df c \<Longrightarrow> no_nulls c (rows (remove_missing_required df))"
  by (auto simp: remove_missing_required_eq no_nulls_def list_all_iff)

lemma remove_missing_required_fixed:
  assumes "\<And>c. c \<in> set required_cols \<Longrightarrow> has_column df c \<Longrightarrow> no_nulls c (rows df)"
  shows "remove_missing_required df = df"
proof -
  have "filter (\<lambda>r. \<forall>c \<in> set required_cols. has_column df c \<longrightarrow> notna (row_get r c)) (rows df)
          = rows df"
    using assms by (auto simp: filter_id_conv no_nulls_def list_all_iff)
  then show ?thesis by (simp add: remove_missing_required_eq)
qed

subsection \<open>impute_missing_values\<close>

lemma median_not_None:
  assumes "xs \<noteq> []"
  shows "median xs \<noteq> None"
proof -
  have "length (sort xs) \<noteq> 0" using assms by simp
  then show ?thesis
    unfolding median_def Let_def by (simp del: not_None_eq length_sort)
qed

lemma median_None: "median xs = None \<longleftrightarrow> xs = []"
proof (cases "xs = []")
  case True
  then show ?thesis by (simp add: median_def)
next
  case False
  with median_not_None[OF False] show ?thesis by simp
qed

lemma numbers_Nil: "numbers cells = [] \<longleftrightarrow> (\<forall>c \<in> set cells. \<forall>x. c \<noteq> Num x)"
  by (induction cells) (auto simp: numbers_def split: cell.splits)

lemma no_missing: "filter isna (column_cells df c) = [] \<longleftrightarrow> no_nulls c (rows df)"
  by (auto simp: filter_empty_conv column_cells_def no_nulls_def list_all_iff notna_def isna_def)

lemma no_numbers_iff: "numbers (column_cells df c) = [] \<longleftrightarrow> no_numbers c (rows df)"
  by (auto simp: numbers_Nil column_cells_def no_numbers_def list_all_iff split: cell.splits)

lemma columns_impute_numerical [simp]: "columns (impute_numerical c df) = columns df"
  by (simp add: impute_numerical_def Let_def split: option.splits)

lemma columns_impute_categorical [simp]: "columns (impute_categorical c df) = columns df"
  by (simp add: impute_categorical_def Let_def)

lemma impute_numerical_fixed:
  assumes "settled c (rows df)"
  shows "impute_numerical c df = df"
proof (cases "no_nulls c (rows df)")
  case True
  then have "filter isna (column_cells df c) = []" by (simp add: no_missing)
  then show ?thesis by (simp add: impute_numerical_def)
next
  case False
  with assms have "no_numbers c (rows df)" by (simp add: settled_def)
  then have "numbers (column_cells df c) = []" by (simp add: no_numbers_iff)
  then have "median (numbers (column_cells df c)) = None" by (simp add: median_None)
  then show ?thesis by (simp add: impute_numerical_def Let_def)
qed

lemma impute_categorical_fixed:
  assumes "no_nulls c (rows df)"
  shows "impute_categorical c df = df"
proof -
  from assms have "filter isna (column_cells df c) = []" by (simp add: no_missing)
  then show ?thesis by (simp add: impute_categorical_def)
qed

lemma no_nulls_fill:
  "v \<noteq> Null \<Longrightarrow> no_nulls c (rows (map_column c (fillna v) df))"
  by (simp add: no_nulls_def list_all_iff rows_map_column row_get_upd fillna_def notna_def
      isna_def)

lemma no_nulls_fill_other:
  "no_nulls c' (rows df) \<Longrightarrow> v \<noteq> Null \<Longrightarrow> no_nulls c' (rows (map_column c (fillna v) df))"
  by (auto simp: no_nulls_def list_all_iff rows_map_column row_get_upd fillna_def notna_def
      isna_def)

lemma no_numbers_fill_other:
  "no_numbers c' (rows df) \<Longrightarrow> c' \<noteq> c \<Longrightarrow> no_numbers c' (rows (map_column c f df))"
  by (auto simp: no_numbers_def list_all_iff rows_map_column row_get_upd)

lemma settled_fill:
  assumes "settled c' (rows df)" "v \<noteq> Null"
  shows "settled c' (rows (map_column c (fillna v) df))"
proof (cases "c' = c")
  case True
  then show ?thesis using no_nulls_fill[OF assms(2)] by (simp add: settled_def)
next
  case False
  then show ?thesis
    using assms no_nulls_fill_other no_numbers_fill_other by (auto simp: settled_def)
qed

lemma impute_numerical_settles: "settled c (rows (impute_numerical c df))"
proof (cases "filter isna (column_cells df c) = []")
  case True
  then show ?thesis
    by (simp add: impute_numerical_def settled_def no_missing)
next
  case False
  show ?thesis
  proof (cases "median (numbers (column_cells df c))")
    case None
    then have "no_numbers c (rows df)" by (simp add: median_None no_numbers_iff)
    with None False show ?thesis by (simp add: impute_numerical_def settled_def)
  next
    case (Some m)
    with False show ?thesis
      by (simp add: impute_numerical_def settled_def no_nulls_fill)
  qed
qed

lemma impute_numerical_settled:
  "settled c' (rows df) \<Longrightarrow> settled c' (rows (impute_numerical c df))"
  by (simp add: impute_numerical_def Let_def settled_fill split: option.splits)

lemma impute_numerical_no_nulls:
  "no_nulls c' (rows df) \<Longrightarrow> no_nulls c' (rows (impute_numerical c df))"
  by (simp add: impute_numerical_def Let_def no_nulls_fill_other split: option.splits)

lemma impute_categorical_settled:
  "settled c' (rows df) \<Longrightarrow> settled c' (rows (impute_categorical c df))"
  by (simp add: impute_categorical_def Let_def settled_fill)

lemma impute_categorical_no_nulls:
  "no_nulls c' (rows df) \<Longrightarrow> no_nulls c' (rows (impute_categorical c df))"
  by (simp add: impute_categorical_def Let_def no_nulls_fill_other)

lemma impute_categorical_fills: "no_nulls c (rows (impute_categorical c df))"
  by (cases "filter isna (column_cells df c) = []")
     (simp_all add: impute_categorical_def no_missing no_nulls_fill)

lemma columns_fold_impute_numerical [simp]:
  "columns (fold impute_numerical cs df) = columns df"
  by (rule fold_preserves[where P="\<lambda>d. columns d = columns df"]) simp_all

lemma columns_fold_impute_categorical [simp]:
  "columns (fold impute_categorical cs df) = columns df"
  by (rule fold_preserves[where P="\<lambda>d. columns d = columns df"]) simp_all

lemma columns_impute_missing_values [simp]:
  "columns (impute_missing_values df) = columns df"
  by (simp add: impute_missing_values_def Let_def)

lemma select_dtypes_cong: "columns d = columns df \<Longrightarrow> select_dtypes ts d = select_dtypes ts df"
  by (simp add: select_dtypes_def)

lemma impute_missing_values_settles:
  assumes "c \<in> set (select_dtypes [Float32, Float64, Int32, Int64] df)"
  shows "settled c (rows (impute_missing_values df))"
proof -
  let ?d1 = "fold impute_numerical (select_dtypes [Float32, Float64, Int32, Int64] df) df"
  have "settled c (rows ?d1)"
    by (rule fold_establishes[where P="\<lambda>c d. settled c (rows d)", OF _ _ assms])
       (simp_all add: impute_numerical_settles impute_numerical_settled)
  then have "settled c (rows (fold impute_categorical (select_dtypes [Object] ?d1) ?d1))"
    by (rule fold_preserves[where P="\<lambda>d. settled c (rows d)", rotated])
       (simp add: impute_categorical_settled)
  then show ?thesis by (simp add: impute_missing_values_def Let_def)
qed

lemma impute_missing_values_fills:
  assumes "c \<in> set (select_dtypes [Object] df)"
  shows "no_nulls c (rows (impute_missing_values df))"
proof -
  define d1 where
    "d1 = fold impute_numerical (select_dtypes [Float32, Float64, Int32, Int64] df) df"
  have "columns d1 = columns df" by (simp add: d1_def)
  then have "select_dtypes [Object] d1 = select_dtypes [Object] df"
    by (rule select_dtypes_cong)
  with assms have c: "c \<in> set (select_dtypes [Object] d1)" by (simp only:)
  have "no_nulls c (rows (fold impute_categorical (select_dtypes [Object] d1) d1))"
    using impute_categorical_fills impute_categorical_no_nulls c
    by (rule fold_establishes[where P="\<lambda>c d. no_nulls c (rows d)"])
  then show ?thesis by (simp add: impute_missing_values_def Let_def d1_def)
qed

lemma impute_missing_values_no_nulls:
  assumes "no_nulls c (rows df)"
  shows "no_nulls c (rows (impute_missing_values df))"
proof -
  let ?d1 = "fold impute_numerical (select_dtypes [Float32, Float64, Int32, Int64] df) df"
  have "no_nulls c (rows ?d1)"
    by (rule fold_preserves[where P="\<lambda>d. no_nulls c (rows d)"])
       (simp_all add: impute_numerical_no_nulls assms)
  then have "no_nulls c (rows (fold impute_categorical (select_dtypes [Object] ?d1) ?d1))"
    by (rule fold_preserves[where P="\<lambda>d. no_nulls c (rows d)", rotated])
       (simp add: impute_categorical_no_nulls)
  then show ?thesis by (simp add: impute_missing_values_def Let_def)
qed

lemma impute_missing_values_fixed:
  assumes "\<And>c. c \<in> set (select_dtypes [Float32, Float64, Int32, Int64] df) \<Longrightarrow> settled c (rows df)"
    and "\<And>c. c \<in> set (select_dtypes [Object] df) \<Longrightarrow> no_nulls c (rows df)"
  shows "impute_missing_values df = df"
proof -
  have "fold impute_numerical (select_dtypes [Float32, Float64, Int32, Int64] df) df = df"
    by (rule fold_fixed) (simp add: impute_numerical_fixed assms(1))
  moreover have "fold impute_categorical (select_dtypes [Object] df) df = df"
    by (rule fold_fixed) (simp add: impute_categorical_fixed assms(2))
  ultimately show ?thesis by (simp add: impute_missing_values_def Let_def)
qed

subsection \<open>remove_outliers\<close>

lemma remove_outliers_column_Inr:
  "remove_outliers_column c df = Inr d \<Longrightarrow> columns d = columns df \<and> set (rows d) \<subseteq> set (rows df)"
  by (auto simp: remove_outliers_column_def split: if_splits sum.splits option.splits)

lemma remove_outliers_columns_Inr:
  "remove_outliers_columns cs df = Inr d \<Longrightarrow> columns d = columns df \<and> set (rows d) \<subseteq> set (rows df)"
proof (induction cs arbitrary: df)
  case Nil
  then show ?case by simp
next
  case (Cons c cs)
  from Cons.prems obtain d1 where d1: "remove_outliers_column c df = Inr d1"
    and rest: "remove_outliers_columns cs d1 = Inr d"
    by (auto split: sum.splits)
  from remove_outliers_column_Inr[OF d1] Cons.IH[OF rest] show ?case by auto
qed

lemma remove_outliers_Inr:
  "remove_outliers df = Inr d \<Longrightarrow> columns d = columns df \<and> set (rows d) \<subseteq> set (rows df)"
  unfolding remove_outliers_def by (rule remove_outliers_columns_Inr)

subsection \<open>validate_vector_ranges of the cleaning stage\<close>

lemma columns_clip_vector_column [simp]: "columns (clip_vector_column c df) = columns df"
  by (simp add: clip_vector_column_def)

lemma no_out_of_range:
  "filter is_out_of_range (column_cells df c) = [] \<longleftrightarrow> all_in_range c (rows df)"
  by (auto simp: filter_empty_conv column_cells_def all_in_range_def list_all_iff)

lemma clip_cell_in_range: "\<not> is_out_of_range (clip_cell v)"
  by (cases v) (simp_all add: clip_cell_def is_out_of_range_def)

lemma clip_cell_notna: "notna (clip_cell v) = notna v"
  by (cases v) (simp_all add: clip_cell_def notna_def)

lemma clip_cell_Num: "(\<exists>x. clip_cell v = Num x) = (\<exists>x. v = Num x)"
  by (cases v) (simp_all add: clip_cell_def)

lemma all_in_range_clip:
  "all_in_range c' (rows df) \<or> c' = c \<Longrightarrow> all_in_range c' (rows (map_column c clip_cell df))"
  by (auto simp: all_in_range_def list_all_iff rows_map_column row_get_upd clip_cell_in_range)

lemma no_nulls_clip:
  "no_nulls c' (rows df) \<Longrightarrow> no_nulls c' (rows (map_column c clip_cell df))"
  by (auto simp: no_nulls_def list_all_iff rows_map_column row_get_upd clip_cell_notna)

lemma no_numbers_clip:
  assumes "no_numbers c' (rows df)"
  shows "no_numbers c' (rows (map_column c clip_cell df))"
proof -
  have "\<forall>x. row_get (r(c \<mapsto> clip_cell (row_get r c))) c' \<noteq> Num x"
    if "\<forall>x. row_get r c' \<noteq> Num x" for r
    using that clip_cell_Num[of "row_get r c"] by (auto simp: row_get_upd)
  then show ?thesis
    using assms
    by (auto simp: no_numbers_def list_all_iff rows_map_column split: cell.splits)
qed

lemma settled_clip:
  "settled c' (rows df) \<Longrightarrow> settled c' (rows (map_column c clip_cell df))"
  using no_nulls_clip no_numbers_clip by (auto simp: settled_def)

lemma clip_vector_column_no_nulls:
  "no_nulls c' (rows df) \<Longrightarrow> no_nulls c' (rows (clip_vector_column c df))"
  by (simp add: clip_vector_column_def no_nulls_clip)

lemma clip_vector_column_settled:
  "settled c' (rows df) \<Longrightarrow> settled c' (rows (clip_vector_column c df))"
  by (simp add: clip_vector_column_def settled_clip)

lemma clip_vector_column_in_range:
  "all_in_range c' (rows df) \<Longrightarrow> all_in_range c' (rows (clip_vector_column c df))"
  by (simp add: clip_vector_column_def all_in_range_clip)

lemma float_column_cong: "columns d = columns df \<Longrightarrow> float_column d c = float_column df c"
  by (simp add: float_column_def has_column_def colnames_def dtype_of_def)

lemma clip_vector_column_clips:
  "float_column df c \<longrightarrow> all_in_range c (rows (clip_vector_column c df))"
proof (cases "filter is_out_of_range (column_cells df c) = []")
  case True
  then show ?thesis by (simp add: clip_vector_column_def no_out_of_range)
next
  case False
  then show ?thesis
    by (simp add: clip_vector_column_def float_column_def all_in_range_clip)
qed

lemma clip_vector_column_fixed:
  assumes "float_column df c \<longrightarrow> all_in_range c (rows df)"
  shows "clip_vector_column c df = df"
proof (cases "float_column df c")
  case True
  with assms have "filter is_out_of_range (column_cells df c) = []"
    by (simp add: no_out_of_range)
  then show ?thesis by (simp add: clip_vector_column_def)
next
  case False
  then show ?thesis by (auto simp: clip_vector_column_def float_column_def)
qed

lemma columns_ranges [simp]:
  "columns (data_cleaning_validate_vector_ranges df) = columns df"
  unfolding data_cleaning_validate_vector_ranges_def
  by (rule fold_preserves[where P="\<lambda>d. columns d = columns df"]) simp_all

lemma ranges_no_nulls:
  "no_nulls c (rows df) \<Longrightarrow> no_nulls c (rows (data_cleaning_validate_vector_ranges df))"
  unfolding data_cleaning_validate_vector_ranges_def
  by (rule fold_preserves[where P="\<lambda>d. no_nulls c (rows d)"])
     (simp_all add: clip_vector_column_no_nulls)

lemma ranges_settled:
  "settled c (rows df) \<Longrightarrow> settled c (rows (data_cleaning_validate_vector_ranges df))"
  unfolding data_cleaning_validate_vector_ranges_def
  by (rule fold_preserves[where P="\<lambda>d. settled c (rows d)"])
     (simp_all add: clip_vector_column_settled)

lemma float_column_clip [simp]:
  "float_column (clip_vector_column c d) c' = float_column d c'"
  by (rule float_column_cong) simp

lemma float_column_ranges [simp]:
  "float_column (data_cleaning_validate_vector_ranges df) c = float_column df c"
  by (rule float_column_cong) simp

lemma ranges_clips:
  assumes "c \<in> set (filter is_vector_column (colnames df))"
  shows "float_column df c \<longrightarrow> all_in_range c (rows (data_cleaning_validate_vector_ranges df))"
proof -
  let ?P = "\<lambda>c d. float_column d c \<longrightarrow> all_in_range c (rows d)"
  have "?P c (fold clip_vector_column (filter is_vector_column (colnames df)) df)"
  proof (rule fold_establishes[where P="?P", OF _ _ assms])
    fix c d
    show "?P c (clip_vector_column c d)"
      using clip_vector_column_clips[of d c] by simp
  next
    fix c c' d
    assume "?P c' d"
    then show "?P c' (clip_vector_column c d)"
      by (simp add: clip_vector_column_in_range)
  qed
  then have "?P c (data_cleaning_validate_vector_ranges df)"
    by (simp only: data_cleaning_validate_vector_ranges_def)
  then show ?thesis by simp
qed

lemma ranges_fixed:
  assumes "\<And>c. c \<in> set (filter is_vector_column (colnames df)) \<Longrightarrow>
             float_column df c \<longrightarrow> all_in_range c (rows df)"
  shows "data_cleaning_validate_vector_ranges df = df"
  unfolding data_cleaning_validate_vector_ranges_def
  by (rule fold_fixed) (simp add: clip_vector_column_fixed assms)

subsection \<open>remove_duplicates\<close>

lemma keep_first_subset: "set (keep_first key seen xs) \<subseteq> set xs"
  by (induction xs arbitrary: seen) auto

lemma keep_first_keys:
  "distinct (map key (keep_first key seen xs)) \<and>
   set (map key (keep_first key seen xs)) \<inter> set seen = {}"
proof (induction xs arbitrary: seen)
  case Nil
  then show ?case by simp
next
  case (Cons x xs)
  show ?case
  proof (cases "key x \<in> set seen")
    case True
    then show ?thesis using Cons.IH[of seen] by simp
  next
    case False
    then show ?thesis using Cons.IH[of "key x # seen"] by auto
  qed
qed

lemma keep_first_fixed:
  "distinct (map key ys) \<Longrightarrow> set (map key ys) \<inter> set seen = {} \<Longrightarrow> keep_first key seen ys = ys"
  by (induction ys arbitrary: seen) auto

lemma keep_first_idem: "keep_first key [] (keep_first key [] xs) = keep_first key [] xs"
  using keep_first_keys[of key "[]" xs] by (simp add: keep_first_fixed)

lemma columns_remove_duplicates [simp]: "columns (remove_duplicates df) = columns df"
  by (simp add: remove_duplicates_def)

lemma remove_duplicates_subset: "set (rows (remove_duplicates df)) \<subseteq> set (rows df)"
  by (simp add: remove_duplicates_def keep_first_subset)

lemma remove_duplicates_idem: "remove_duplicates (remove_duplicates df) = remove_duplicates df"
  by (simp add: remove_duplicates_def keep_first_idem)

lemma columns_remove_missing_required [simp]:
  "columns (remove_missing_required df) = columns df"
  by (simp add: remove_missing_required_eq)

subsection \<open>The fixed point\<close>

text \<open>
  Claim C5, as the code has it. The 3-sigma rule recomputes mean and deviation on every
  run, so a second run can find new outliers. When the rule removes no row from the
  output of a cleaning run, that output is a fixed point: cleaning it again returns it
  unchanged.
\<close>

theorem clean_dataset_fixed_point:
  assumes "clean_dataset df = Inr df'" and "remove_outliers df' = Inr df'"
  shows "clean_dataset df' = Inr df'"
proof -
  define A where "A = remove_missing_required df"
  define B where "B = impute_missing_values A"
  from assms(1) obtain C where C: "remove_outliers B = Inr C"
    and df': "df' = remove_duplicates (data_cleaning_validate_vector_ranges C)"
    by (auto simp: clean_dataset_def A_def B_def split: sum.splits)
  define E where "E = data_cleaning_validate_vector_ranges C"
  have cA: "columns A = columns df" by (simp add: A_def)
  have cB: "columns B = columns A" by (simp add: B_def)
  have cC: "columns C = columns B" and sC: "set (rows C) \<subseteq> set (rows B)"
    using remove_outliers_Inr[OF C] by simp_all
  have cE: "columns E = columns C" by (simp add: E_def)
  have cD: "columns df' = columns E" by (simp add: df' E_def)
  have sD: "set (rows df') \<subseteq> set (rows E)"
    by (simp add: df' E_def remove_duplicates_subset)
  have cols: "columns df' = columns df" "columns df' = columns A" "columns df' = columns C"
    by (simp_all add: cA cB cC cE cD)

  have keep_nn: "no_nulls c (rows df')" if "no_nulls c (rows B)" for c
  proof -
    from that sC have "no_nulls c (rows C)" by (rule no_nulls_subset[rotated])
    then have "no_nulls c (rows E)" unfolding E_def by (rule ranges_no_nulls)
    with sD show ?thesis by (rule no_nulls_subset)
  qed
  have keep_settled: "settled c (rows df')" if "settled c (rows B)" for c
  proof -
    from that sC have "settled c (rows C)" by (rule settled_subset[rotated])
    then have "settled c (rows E)" unfolding E_def by (rule ranges_settled)
    with sD show ?thesis by (rule settled_subset)
  qed

  have one: "remove_missing_required df' = df'"
  proof (rule remove_missing_required_fixed)
    fix c
    assume c: "c \<in> set required_cols" and h: "has_column df' c"
    from h have "has_column df c" using has_column_cong[OF cols(1), of c] by simp
    with c have "no_nulls c (rows A)"
      unfolding A_def by (rule remove_missing_required_no_nulls)
    then have "no_nulls c (rows B)" unfolding B_def by (rule impute_missing_values_no_nulls)
    then show "no_nulls c (rows df')" by (rule keep_nn)
  qed

  have two: "impute_missing_values df' = df'"
  proof (rule impute_missing_values_fixed)
    fix c
    assume "c \<in> set (select_dtypes [Float32, Float64, Int32, Int64] df')"
    then have "c \<in> set (select_dtypes [Float32, Float64, Int32, Int64] A)"
      using select_dtypes_cong[OF cols(2)] by simp
    then have "settled c (rows B)" unfolding B_def by (rule impute_missing_values_settles)
    then show "settled c (rows df')" by (rule keep_settled)
  next
    fix c
    assume "c \<in> set (select_dtypes [Object] df')"
    then have "c \<in> set (select_dtypes [Object] A)"
      using select_dtypes_cong[OF cols(2)] by simp
    then have "no_nulls c (rows B)" unfolding B_def by (rule impute_missing_values_fills)
    then show "no_nulls c (rows df')" by (rule keep_nn)
  qed

  have four: "data_cleaning_validate_vector_ranges df' = df'"
  proof (rule ranges_fixed)
    fix c
    assume "c \<in> set (filter is_vector_column (colnames df'))"
    then have c: "c \<in> set (filter is_vector_column (colnames C))"
      using cols(3) by (simp add: colnames_def)
    have fc: "float_column df' c = float_column C c"
      using cols(3) by (rule float_column_cong)
    from ranges_clips[OF c] have "float_column C c \<longrightarrow> all_in_range c (rows E)"
      by (simp add: E_def)
    then show "float_column df' c \<longrightarrow> all_in_range c (rows df')"
      using fc sD all_in_range_subset by blast
  qed

  have five: "remove_duplicates df' = df'"
    by (simp add: df' remove_duplicates_idem)

  show ?thesis
    by (simp add: clean_dataset_def one two assms(2) four five)
qed

subsection \<open>A frame of budgets\<close>

lemma three_sigma:
  assumes "0 \<le> v"
  shows "(m - 3 * sqrt v \<le> x \<and> x \<le> m + 3 * sqrt v) \<longleftrightarrow> (x - m)\<^sup>2 \<le> 9 * v"
proof -
  have "(m - 3 * sqrt v \<le> x \<and> x \<le> m + 3 * sqrt v) \<longleftrightarrow> \<bar>x - m\<bar> \<le> \<bar>3 * sqrt v\<bar>"
    using assms by (auto simp: abs_le_iff)
  also have "\<dots> \<longleftrightarrow> (x - m)\<^sup>2 \<le> (3 * sqrt v)\<^sup>2"
    by (rule abs_le_square_iff)
  also have "(3 * sqrt v)\<^sup>2 = 9 * v"
    using assms by (simp add: power_mult_distrib)
  finally show ?thesis .
qed

lemma budget_cells: "column_cells (budget_frame xs) ''budget_max'' = map Num xs"
  by (simp add: column_cells_def budget_frame_def row_get_def comp_def)

lemma budget_has:
  "has_column (budget_frame xs) c \<longleftrightarrow> c = ''budget_max''"
  by (auto simp: has_column_def colnames_def budget_frame_def)

lemma budget_rows_update:
  "budget_frame xs\<lparr>rows := map (\<lambda>x. [''budget_max'' \<mapsto> Num x]) ys\<rparr> = budget_frame ys"
  by (simp add: budget_frame_def)

lemma budget_missing: "remove_missing_required (budget_frame xs) = budget_frame xs"
  by (simp add: remove_missing_required_def required_cols_def budget_has)

lemma budget_impute: "impute_missing_values (budget_frame xs) = budget_frame xs"
proof -
  have a: "select_dtypes [Float32, Float64, Int32, Int64] (budget_frame xs) = [''budget_max'']"
    by (simp add: select_dtypes_def budget_frame_def)
  have b: "select_dtypes [Object] (budget_frame xs) = []"
    by (simp add: select_dtypes_def budget_frame_def)
  have c: "impute_numerical ''budget_max'' (budget_frame xs) = budget_frame xs"
    by (simp add: impute_numerical_def budget_cells isna_def filter_empty_conv)
  show ?thesis
    by (simp add: impute_missing_values_def a b c)
qed

lemma traverse_numeric_Num: "traverse numeric_value (map Num xs) = Inr (map Some xs)"
  by (induction xs) simp_all

lemma present_Some: "present (map Some xs) = xs"
  by (induction xs) (simp_all add: present_def)

lemma budget_outliers:
  assumes "mean xs = Some m" "std xs = Some (sqrt v)" "0 < v"
  shows "remove_outliers (budget_frame xs) =
           Inr (budget_frame (filter (\<lambda>x. (x - m)\<^sup>2 \<le> 9 * v) xs))"
proof -
  have f: "filter (\<lambda>r. in_bounds (m - 3 * sqrt v) (m + 3 * sqrt v) (row_get r ''budget_max''))
             (rows (budget_frame ys)) =
           map (\<lambda>x. [''budget_max'' \<mapsto> Num x]) (filter (\<lambda>x. (x - m)\<^sup>2 \<le> 9 * v) ys)" for ys
    using assms(3) three_sigma[of v m]
    by (simp add: budget_frame_def filter_map comp_def row_get_def in_bounds_def)
  have "remove_outliers_column ''budget_max'' (budget_frame xs) =
           Inr (budget_frame (filter (\<lambda>x. (x - m)\<^sup>2 \<le> 9 * v) xs))"
    using assms
    by (simp add: remove_outliers_column_def budget_has budget_cells traverse_numeric_Num
        present_Some f budget_rows_update)
  then show ?thesis
    by (simp add: remove_outliers_def remove_outliers_column_def budget_has)
qed

lemma budget_not_vector: "\<not> is_vector_column ''budget_max''"
  by (simp add: is_vector_column_def contains_def startswith_def sublist_Cons_right)

lemma budget_ranges: "data_cleaning_validate_vector_ranges (budget_frame xs) = budget_frame xs"
  by (simp add: data_cleaning_validate_vector_ranges_def colnames_def budget_frame_def
      budget_not_vector)

lemma budget_duplicates: "remove_duplicates (budget_frame xs) = budget_frame xs"
  by (simp add: remove_duplicates_def budget_has)

lemma budget_clean:
  assumes "mean xs = Some m" "std xs = Some (sqrt v)" "0 < v"
  shows "clean_dataset (budget_frame xs) =
           Inr (budget_frame (filter (\<lambda>x. (x - m)\<^sup>2 \<le> 9 * v) xs))"
  by (simp add: clean_dataset_def budget_missing budget_impute budget_outliers[OF assms]
      budget_ranges budget_duplicates)

lemma first_pass:
  "clean_dataset (budget_frame [1000, 10, 0, 0, 0, 0, 0, 0, 0, 0, 0, 0]) =
     Inr (budget_frame [10, 0, 0, 0, 0, 0, 0, 0, 0, 0, 0])"
proof -
  let ?xs = "[1000, 10, 0, 0, 0, 0, 0, 0, 0, 0, 0, 0] :: real list"
  have m: "mean ?xs = Some (505 / 6)" by (simp add: mean_def)
  have s: "std ?xs = Some (sqrt (2745275 / 33))"
    by (simp add: std_def m power2_eq_square)
  show ?thesis
    using budget_clean[OF m s] by (simp add: power2_eq_square)
qed

lemma second_pass:
  "clean_dataset (budget_frame [10, 0, 0, 0, 0, 0, 0, 0, 0, 0, 0]) =
     Inr (budget_frame [0, 0, 0, 0, 0, 0, 0, 0, 0, 0])"
proof -
  let ?xs = "[10, 0, 0, 0, 0, 0, 0, 0, 0, 0, 0] :: real list"
  have m: "mean ?xs = Some (10 / 11)" by (simp add: mean_def)
  have s: "std ?xs = Some (sqrt (100 / 11))"
    by (simp add: std_def m power2_eq_square)
  show ?thesis
    using budget_clean[OF m s] by (simp add: power2_eq_square)
qed

subsection \<open>A frame where every sub-stage acts\<close>

lemma listing_get:
  "row_get (listing u r c b s) ''user_id'' = u"
  "row_get (listing u r c b s) ''recommendation_id'' = r"
  "row_get (listing u r c b s) ''user_climate_pref'' = Num c"
  "row_get (listing u r c b s) ''recommendation_score'' = Num (1 / 2)"
  "row_get (listing u r c b s) ''engagement_score'' = Num 1"
  "row_get (listing u r c b s) ''budget_max'' = b"
  "row_get (listing u r c b s) ''primary_segment'' = s"
  by (simp_all add: listing_def row_get_def)

lemma listing_upd:
  "(listing u r c b s)(''budget_max'' \<mapsto> b') = listing u r c b' s"
  "(listing u r c b s)(''primary_segment'' \<mapsto> s') = listing u r c b s'"
  "(listing u r c b s)(''user_climate_pref'' \<mapsto> Num c') = listing u r c' b s"
  by (auto simp: listing_def fun_eq_iff)

lemma listings_columns:
  "colnames (listings rs) =
     [''user_id'', ''recommendation_id'', ''user_climate_pref'', ''recommendation_score'',
      ''engagement_score'', ''budget_max'', ''primary_segment'']"
  by (simp add: listings_def colnames_def)

lemma listings_rows: "rows (listings rs) = rs"
  by (simp add: listings_def)

lemma listings_update: "listings rs\<lparr>rows := rs'\<rparr> = listings rs'"
  by (simp add: listings_def)

lemma listings_missing:
  "remove_missing_required raw_listings =
     listings
       [listing (Str ''u1'') (Str ''r1'') (3 / 2) (Num 1000) Null,
        listing (Str ''u1'') (Str ''r1'') (1 / 4) (Num 2000) (Str ''A''),
        listing (Str ''u2'') (Str ''r2'') (1 / 2) Null (Str ''B'')]"
  by (simp add: remove_missing_required_def required_cols_def raw_listings_def has_column_def
      listings_columns dropna_def listings_rows listings_update listing_get notna_def)

lemma listings_impute:
  "impute_missing_values
     (listings
       [listing (Str ''u1'') (Str ''r1'') (3 / 2) (Num 1000) Null,
        listing (Str ''u1'') (Str ''r1'') (1 / 4) (Num 2000) (Str ''A''),
        listing (Str ''u2'') (Str ''r2'') (1 / 2) Null (Str ''B'')]) =
   listings
       [listing (Str ''u1'') (Str ''r1'') (3 / 2) (Num 1000) (Str ''UNKNOWN''),
        listing (Str ''u1'') (Str ''r1'') (1 / 4) (Num 2000) (Str ''A''),
        listing (Str ''u2'') (Str ''r2'') (1 / 2) (Num 1500) (Str ''B'')]"
proof -
  have numerical: "select_dtypes [Float32, Float64, Int32, Int64] (listings rs) =
      [''user_climate_pref'', ''recommendation_score'', ''engagement_score'', ''budget_max'']"
    for rs
    by (simp add: select_dtypes_def listings_def)
  have categorical: "select_dtypes [Object] (listings rs) =
      [''user_id'', ''recommendation_id'', ''primary_segment'']" for rs
    by (simp add: select_dtypes_def listings_def)
  have middle: "median [1000, 2000 :: real] = Some 1500"
    by (simp add: median_def)
  show ?thesis
    by (simp add: impute_missing_values_def numerical categorical impute_numerical_def
        impute_categorical_def column_cells_def listings_rows listing_get isna_def numbers_def
        middle map_column_def listings_update listing_upd fillna_def)
qed

lemma remove_outliers_column_keeps:
  assumes "has_column df col" and "column_cells df col = map Num xs"
    and "mean xs = Some m" and "std xs = Some (sqrt v)" and "0 < v"
    and "\<forall>x \<in> set xs. (x - m)\<^sup>2 \<le> 9 * v"
  shows "remove_outliers_column col df = Inr df"
proof -
  have "in_bounds (m - 3 * sqrt v) (m + 3 * sqrt v) (row_get r col)" if "r \<in> set (rows df)" for r
  proof -
    from that have "row_get r col \<in> set (column_cells df col)"
      by (auto simp: column_cells_def)
    with assms(2) obtain x where "row_get r col = Num x" "x \<in> set xs"
      by auto
    with assms(5,6) three_sigma[of v m x] show ?thesis
      by (simp add: in_bounds_def)
  qed
  then have "filter (\<lambda>r. in_bounds (m - 3 * sqrt v) (m + 3 * sqrt v) (row_get r col)) (rows df) =
      rows df"
    by (simp add: filter_id_conv)
  with assms show ?thesis
    by (simp add: remove_outliers_column_def traverse_numeric_Num present_Some)
qed

lemma remove_outliers_budget_only:
  assumes "remove_outliers_column ''budget_max'' (listings rs) = Inr (listings rs)"
  shows "remove_outliers (listings rs) = Inr (listings rs)"
  using assms
  by (simp add: remove_outliers_def remove_outliers_column_def has_column_def listings_columns)

lemma listings_outliers:
  "remove_outliers
     (listings
       [listing (Str ''u1'') (Str ''r1'') (3 / 2) (Num 1000) (Str ''UNKNOWN''),
        listing (Str ''u1'') (Str ''r1'') (1 / 4) (Num 2000) (Str ''A''),
        listing (Str ''u2'') (Str ''r2'') (1 / 2) (Num 1500) (Str ''B'')]) =
   Inr (listings
       [listing (Str ''u1'') (Str ''r1'') (3 / 2) (Num 1000) (Str ''UNKNOWN''),
        listing (Str ''u1'') (Str ''r1'') (1 / 4) (Num 2000) (Str ''A''),
        listing (Str ''u2'') (Str ''r2'') (1 / 2) (Num 1500) (Str ''B'')])"
proof (rule remove_outliers_budget_only, rule remove_outliers_column_keeps)
  let ?xs = "[1000, 2000, 1500] :: real list"
  show "mean ?xs = Some 1500" by (simp add: mean_def)
  then show "std ?xs = Some (sqrt 250000)" by (simp add: std_def power2_eq_square)
  show "\<forall>x \<in> set ?xs. (x - 1500)\<^sup>2 \<le> 9 * 250000" by (simp add: power2_eq_square)
qed (simp_all add: has_column_def listings_columns column_cells_def listings_rows listing_get)

lemma cleaned_listings_outliers: "remove_outliers cleaned_listings = Inr cleaned_listings"
  unfolding cleaned_listings_def
proof (rule remove_outliers_budget_only, rule remove_outliers_column_keeps)
  let ?xs = "[1000, 1500] :: real list"
  show "mean ?xs = Some 1250" by (simp add: mean_def)
  then show "std ?xs = Some (sqrt 125000)" by (simp add: std_def power2_eq_square)
  show "\<forall>x \<in> set ?xs. (x - 1250)\<^sup>2 \<le> 9 * 125000" by (simp add: power2_eq_square)
qed (simp_all add: has_column_def listings_columns column_cells_def listings_rows listing_get)

lemma listings_ranges:
  "data_cleaning_validate_vector_ranges
     (listings
       [listing (Str ''u1'') (Str ''r1'') (3 / 2) (Num 1000) (Str ''UNKNOWN''),
        listing (Str ''u1'') (Str ''r1'') (1 / 4) (Num 2000) (Str ''A''),
        listing (Str ''u2'') (Str ''r2'') (1 / 2) (Num 1500) (Str ''B'')]) =
   listings
       [listing (Str ''u1'') (Str ''r1'') 1 (Num 1000) (Str ''UNKNOWN''),
        listing (Str ''u1'') (Str ''r1'') (1 / 4) (Num 2000) (Str ''A''),
        listing (Str ''u2'') (Str ''r2'') (1 / 2) (Num 1500) (Str ''B'')]"
proof -
  have vectors: "filter is_vector_column (colnames (listings rs)) =
      [''user_id'', ''user_climate_pref'']" for rs
    by (simp add: listings_columns is_vector_column_def contains_def startswith_def
        sublist_Cons_right)
  have identifiers: "\<not> float_column (listings rs) ''user_id''" for rs
    by (simp add: float_column_def dtype_of_def listings_def)
  have preferences: "float_column (listings rs) ''user_climate_pref''" for rs
    by (simp add: float_column_def dtype_of_def listings_def has_column_def colnames_def)
  show ?thesis
    by (simp add: data_cleaning_validate_vector_ranges_def vectors clip_vector_column_def
        identifiers preferences column_cells_def listings_rows listing_get is_out_of_range_def
        map_column_def listings_update listing_upd clip_cell_def)
qed

lemma listings_duplicates:
  "remove_duplicates
     (listings
       [listing (Str ''u1'') (Str ''r1'') 1 (Num 1000) (Str ''UNKNOWN''),
        listing (Str ''u1'') (Str ''r1'') (1 / 4) (Num 2000) (Str ''A''),
        listing (Str ''u2'') (Str ''r2'') (1 / 2) (Num 1500) (Str ''B'')]) =
   cleaned_listings"
  by (simp add: remove_duplicates_def has_column_def listings_columns listings_rows
      listing_get listings_update cleaned_listings_def)

lemma raw_listings_clean: "clean_dataset raw_listings = Inr cleaned_listings"
  by (simp add: clean_dataset_def listings_missing listings_impute listings_outliers
      listings_ranges listings_duplicates)

theorem clean_dataset_fixed_point_witness:
  "clean_dataset raw_listings = Inr cleaned_listings \<and>
   remove_outliers cleaned_listings = Inr cleaned_listings \<and>
   raw_listings \<noteq> cleaned_listings \<and>
   clean_dataset cleaned_listings = Inr cleaned_listings"
proof -
  have "length (rows raw_listings) \<noteq> length (rows cleaned_listings)"
    by (simp add: raw_listings_def cleaned_listings_def listings_rows)
  then have "raw_listings \<noteq> cleaned_listings"
    by metis
  with clean_dataset_fixed_point[OF raw_listings_clean cleaned_listings_outliers]
    raw_listings_clean cleaned_listings_outliers
  show ?thesis by blast
qed

text \<open>
  Claim C5 as stated. Twelve budgets: 1000, 10 and ten zeros. The first run drops 1000,
  which lies outside three deviations of the twelve; run on its own output, the stage
  drops 10 as well, which lies outside three deviations of the eleven that were left.
\<close>

theorem clean_dataset_idempotent_counterexample:
  "clean_dataset (budget_frame [1000, 10, 0, 0, 0, 0, 0, 0, 0, 0, 0, 0]) =
     Inr (budget_frame [10, 0, 0, 0, 0, 0, 0, 0, 0, 0, 0]) \<and>
   clean_dataset (budget_frame [10, 0, 0, 0, 0, 0, 0, 0, 0, 0, 0]) =
     Inr (budget_frame [0, 0, 0, 0, 0, 0, 0, 0, 0, 0]) \<and>
   budget_frame [0, 0, 0, 0, 0, 0, 0, 0, 0, 0] \<noteq>
     budget_frame [10, 0, 0, 0, 0, 0, 0, 0, 0, 0, 0]"
proof -
  have "length (rows (budget_frame [0, 0, 0, 0, 0, 0, 0, 0, 0, 0])) \<noteq>
        length (rows (budget_frame [10, 0, 0, 0, 0, 0, 0, 0, 0, 0, 0]))"
    by (simp add: budget_frame_def)
  then have "budget_frame [0, 0, 0, 0, 0, 0, 0, 0, 0, 0] \<noteq>
     budget_frame [10, 0, 0, 0, 0, 0, 0, 0, 0, 0, 0]"
    by metis
  with first_pass second_pass show ?thesis by blast
qed

section \<open>Anonymization: results\<close>

subsection \<open>Columns of a changed frame\<close>

lemma row_get_restrict: "c \<notin> A \<Longrightarrow> row_get (r |` (- A)) c = row_get r c"
  by (simp add: row_get_def restrict_map_def)

lemma traverse_length: "traverse f xs = Inr ys \<Longrightarrow> length ys = length xs"
  by (induction xs arbitrary: ys) (auto split: sum.splits)

lemma cells_assign_column:
  "column_cells (assign_column c t f df) c' =
     (if c' = c then map f (rows df) else column_cells df c')"
  by (simp add: column_cells_def assign_column_def row_get_upd comp_def)

lemma cells_assign_values:
  "length vs = length (rows df) \<Longrightarrow>
   column_cells (assign_values c t vs df) c' = (if c' = c then vs else column_cells df c')"
proof (induction vs "rows df" arbitrary: df rule: list_induct2)
  case Nil
  then show ?case by (simp add: column_cells_def assign_values_def)
next
  case (Cons v vs r rs)
  have "column_cells (assign_values c t vs (df\<lparr>rows := rs\<rparr>)) c' =
        (if c' = c then vs else column_cells (df\<lparr>rows := rs\<rparr>) c')"
    by (rule Cons.hyps(2)) simp
  with Cons.hyps(3)[symmetric] show ?case
    by (simp add: column_cells_def assign_values_def row_get_upd)
qed

lemma cells_drop_columns:
  "c' \<notin> set cs \<Longrightarrow> column_cells (drop_columns cs df) c' = column_cells df c'"
  by (simp add: column_cells_def drop_columns_def row_get_restrict comp_def)

lemma cells_map_column:
  "column_cells (map_column c f df) c' =
     (if c' = c then map f (column_cells df c) else column_cells df c')"
  by (simp add: column_cells_def map_column_def row_get_upd comp_def)

lemma set_retyped:
  "set (map (\<lambda>(n, d). if n = c then (n, t) else (n, d)) cols) =
     {x \<in> set cols. fst x \<noteq> c} \<union> (if c \<in> fst ` set cols then {(c, t)} else {})"
  by (induction cols) (auto split: if_splits)

lemma set_set_dtype: "set (set_dtype c t cols) = {x \<in> set cols. fst x \<noteq> c} \<union> {(c, t)}"
proof (cases "c \<in> fst ` set cols")
  case True
  then show ?thesis
    unfolding set_dtype_def using set_retyped[of c t cols] by simp
next
  case False
  then have "{x \<in> set cols. fst x \<noteq> c} = set cols" by force
  with False show ?thesis by (simp add: set_dtype_def)
qed

lemma set_dtype_same: "(c, t) \<in> set (set_dtype c t cols)"
  by (simp add: set_set_dtype)

lemma set_dtype_other:
  "c' \<noteq> c \<Longrightarrow> (c', d) \<in> set (set_dtype c t cols) \<longleftrightarrow> (c', d) \<in> set cols"
  by (auto simp: set_set_dtype)

lemma columns_drop:
  "(c, d) \<in> set (columns (drop_columns cs df)) \<longleftrightarrow> (c, d) \<in> set (columns df) \<and> c \<notin> set cs"
  by (auto simp: drop_columns_def)

lemma has_column_iff: "has_column df c \<longleftrightarrow> (\<exists>d. (c, d) \<in> set (columns df))"
  by (force simp: has_column_def colnames_def image_iff)

subsection \<open>Suppression of rare values\<close>

lemma count_list_map_fixed:
  assumes "\<And>y. y \<in> set xs \<Longrightarrow> (f y = x) = (y = x)"
  shows "count_list (map f xs) x = count_list xs x"
  using assms by (induction xs) auto

lemma suppress_rare_again:
  assumes "x \<in> set cells"
  shows "suppress_rare t (map (suppress_rare t cells) cells) (suppress_rare t cells x)
           = suppress_rare t cells x"
proof (cases "is_rare t cells x")
  case True
  then show ?thesis by (simp add: suppress_rare_def)
next
  case False
  let ?f = "suppress_rare t cells"
  from False have fx: "?f x = x" by (simp add: suppress_rare_def)
  show ?thesis
  proof (cases "x = Str ''OTHER''")
    case True
    with fx show ?thesis by (simp add: suppress_rare_def)
  next
    case other: False
    have "(?f y = x) = (y = x)" for y
      using other fx by (auto simp: suppress_rare_def)
    then have "count_list (map ?f cells) x = count_list cells x"
      by (intro count_list_map_fixed)
    with False have "\<not> is_rare t (map ?f cells) x" by (simp add: is_rare_def)
    with fx show ?thesis by (simp add: suppress_rare_def)
  qed
qed

lemma columns_remove_rare_column [simp]:
  "columns (remove_rare_column t c df) = columns df"
  by (simp add: remove_rare_column_def Let_def map_column_def)

lemma cells_remove_rare_column:
  "column_cells (remove_rare_column t c df) c' =
     (if c' = c then map (suppress_rare t (column_cells df c)) (column_cells df c)
      else column_cells df c')"
proof (cases "list_ex (is_rare t (column_cells df c)) (column_cells df c)")
  case True
  then show ?thesis by (simp add: remove_rare_column_def cells_map_column)
next
  case False
  then have "map (suppress_rare t (column_cells df c)) (column_cells df c) = column_cells df c"
    by (simp add: list_ex_iff suppress_rare_def map_idI)
  with False show ?thesis by (simp add: remove_rare_column_def)
qed

lemma cells_remove_rare_fold:
  "column_cells (fold (remove_rare_column t) cs df) c' =
     (if c' \<in> set cs then map (suppress_rare t (column_cells df c')) (column_cells df c')
      else column_cells df c')"
proof (induction cs arbitrary: df)
  case Nil
  then show ?case by simp
next
  case (Cons a cs)
  show ?case
    by (simp add: Cons.IH cells_remove_rare_column suppress_rare_again)
qed

lemma columns_remove_rare_categories [simp]:
  "columns (remove_rare_categories t df) = columns df"
  unfolding remove_rare_categories_def
  by (rule fold_preserves[where P="\<lambda>d. columns d = columns df"]) simp_all

lemma cells_remove_rare_categories:
  "(c, Object) \<in> set (columns df) \<Longrightarrow>
   column_cells (remove_rare_categories t df) c =
     map (suppress_rare t (column_cells df c)) (column_cells df c)"
  by (force simp: remove_rare_categories_def cells_remove_rare_fold select_dtypes_def)

lemma count_list_map_inj:
  "inj_on g (insert x (set xs)) \<Longrightarrow> count_list (map g xs) (g x) = count_list xs x"
  by (induction xs) (auto simp: inj_on_def)

subsection \<open>The stages of anonymization\<close>

lemma hash_user_ids_cells:
  assumes "has_column df ''user_id''"
  shows "column_cells (hash_user_ids py_str sha256 df) ''user_hash'' =
           map (\<lambda>u. Str (sha256 (py_str u))) (column_cells df ''user_id'')"
  using assms
  by (simp add: hash_user_ids_def cells_assign_column) (simp add: column_cells_def comp_def)

lemma hash_user_ids_columns:
  assumes "has_column df ''user_id''"
  shows "(''user_hash'', Object) \<in> set (columns (hash_user_ids py_str sha256 df))"
    and "has_column (hash_user_ids py_str sha256 df) ''user_id''"
  using assms
  by (auto simp: hash_user_ids_def assign_column_def set_set_dtype has_column_iff)

lemma generalize_nationality_cells:
  assumes "c \<noteq> ''user_nationality''" "c \<noteq> ''user_region''"
  shows "column_cells (generalize_nationality df) c = column_cells df c"
  using assms
  by (simp add: generalize_nationality_def cells_drop_columns cells_assign_column)

lemma generalize_nationality_columns:
  assumes "c \<noteq> ''user_nationality''" "c \<noteq> ''user_region''"
  shows "(c, d) \<in> set (columns (generalize_nationality df)) \<longleftrightarrow> (c, d) \<in> set (columns df)"
  using assms
  by (auto simp: generalize_nationality_def columns_drop assign_column_def set_set_dtype)

lemma bin_age_keeps:
  assumes "bin_age df = Inr df'" "c \<noteq> ''user_age''" "c \<noteq> ''user_age_group''"
  shows "column_cells df' c = column_cells df c"
    and "(c, d) \<in> set (columns df') \<longleftrightarrow> (c, d) \<in> set (columns df)"
proof -
  show "column_cells df' c = column_cells df c"
  proof (cases "has_column df ''user_age''")
    case False
    with assms(1) show ?thesis by (simp add: bin_age_def)
  next
    case True
    with assms(1) obtain ages where
      ages: "traverse numeric_value (column_cells df ''user_age'') = Inr ages"
      and df': "df' = drop_columns [''user_age'']
                  (assign_values ''user_age_group'' Category (map age_group_of ages) df)"
      by (auto simp: bin_age_def split: sum.splits)
    from traverse_length[OF ages] have "length (map age_group_of ages) = length (rows df)"
      by (simp add: column_cells_def)
    then show ?thesis
      using assms(2,3) by (simp add: df' cells_drop_columns cells_assign_values)
  qed
  show "(c, d) \<in> set (columns df') \<longleftrightarrow> (c, d) \<in> set (columns df)"
    using assms
    by (auto simp: bin_age_def columns_drop assign_values_def set_set_dtype
        split: if_splits sum.splits)
qed

lemma remove_pii_keeps:
  assumes "c \<notin> set pii_cols"
  shows "column_cells (remove_pii df) c = column_cells df c"
    and "has_column (remove_pii df) c = has_column df c"
proof -
  have "c \<notin> set (filter (has_column df) pii_cols)" using assms by simp
  then show "column_cells (remove_pii df) c = column_cells df c"
    by (simp add: remove_pii_def Let_def cells_drop_columns)
  show "has_column (remove_pii df) c = has_column df c"
    using assms by (auto simp: remove_pii_def Let_def has_column_iff columns_drop)
qed

lemma remove_pii_drops:
  assumes "c \<in> set pii_cols"
  shows "\<not> has_column (remove_pii df) c"
proof (cases "has_column df c")
  case True
  define cs where "cs = filter (has_column df) pii_cols"
  from True assms have c: "c \<in> set cs" by (simp add: cs_def)
  then have "cs \<noteq> []" by auto
  then have "remove_pii df = drop_columns cs df"
    by (simp add: remove_pii_def Let_def cs_def)
  with c show ?thesis
    by (auto simp: has_column_iff columns_drop)
next
  case False
  then show ?thesis
    by (auto simp: remove_pii_def Let_def has_column_iff columns_drop)
qed

lemma anonymize_dataset_user_hash:
  assumes "has_column df ''user_id''"
    and "anonymize_dataset py_str sha256 df = Inr df'"
  shows "column_cells df' ''user_hash'' =
           map (suppress_rare 10 (map (\<lambda>u. Str (sha256 (py_str u))) (column_cells df ''user_id'')))
             (map (\<lambda>u. Str (sha256 (py_str u))) (column_cells df ''user_id''))"
    and "has_column df' ''user_hash''" and "\<not> has_column df' ''user_id''"
proof -
  let ?h = "''user_hash''"
  define H where "H = hash_user_ids py_str sha256 df"
  define G where "G = generalize_nationality H"
  from assms(2) obtain B where B: "bin_age G = Inr B"
    and df': "df' = remove_pii (remove_rare_categories 10 B)"
    by (auto simp: anonymize_dataset_def H_def G_def split: sum.splits)
  let ?hs = "map (\<lambda>u. Str (sha256 (py_str u))) (column_cells df ''user_id'')"
  have hH: "column_cells H ?h = ?hs" and oH: "(?h, Object) \<in> set (columns H)"
    unfolding H_def using assms(1)
    by (simp_all add: hash_user_ids_cells hash_user_ids_columns)
  have hG: "column_cells G ?h = ?hs" and oG: "(?h, Object) \<in> set (columns G)"
    unfolding G_def using hH oH
    by (simp_all add: generalize_nationality_cells generalize_nationality_columns)
  have hB: "column_cells B ?h = ?hs" and oB: "(?h, Object) \<in> set (columns B)"
    using bin_age_keeps[OF B, of ?h] hG oG by simp_all
  have hR: "column_cells (remove_rare_categories 10 B) ?h = map (suppress_rare 10 ?hs) ?hs"
    using cells_remove_rare_categories[OF oB, of 10] hB by simp
  have notpii: "?h \<notin> set pii_cols" by (simp add: pii_cols_def)
  show "column_cells df' ?h = map (suppress_rare 10 ?hs) ?hs"
    using remove_pii_keeps(1)[OF notpii] hR by (simp add: df')
  have "has_column (remove_rare_categories 10 B) ?h"
    using oB by (auto simp: has_column_iff)
  then show "has_column df' ?h"
    using remove_pii_keeps(2)[OF notpii] by (simp add: df')
  show "\<not> has_column df' ''user_id''"
    unfolding df' by (rule remove_pii_drops) (simp add: pii_cols_def)
qed

text \<open>
  Claim C10. The suppression pass runs over every object column, the fresh
  \<^verbatim>\<open>user_hash\<close> among them, before the identifier is dropped. On a frame with a
  \<^verbatim>\<open>user_id\<close> column whose identifiers have distinct digests, the final
  \<^verbatim>\<open>user_hash\<close> of a row is the literal OTHER when its identifier occurs in fewer
  than 10 rows, and the digest otherwise; the raw identifier column is gone. Two users
  with one row each both end as OTHER, so distinct identifiers need not keep distinct
  hashes.
\<close>

theorem rare_user_hash_is_OTHER:
  assumes "has_column df ''user_id''"
    and "anonymize_dataset py_str sha256 df = Inr df'"
    and "inj_on (\<lambda>u. sha256 (py_str u)) (set (column_cells df ''user_id''))"
  shows "column_cells df' ''user_hash'' =
           map (\<lambda>u. if count_list (column_cells df ''user_id'') u < 10 then Str ''OTHER''
                     else Str (sha256 (py_str u)))
             (column_cells df ''user_id'') \<and>
         has_column df' ''user_hash'' \<and> \<not> has_column df' ''user_id''"
proof -
  let ?us = "column_cells df ''user_id''"
  let ?g = "\<lambda>u. Str (sha256 (py_str u))"
  have inj: "inj_on ?g (set ?us)"
    using assms(3) by (auto simp: inj_on_def)
  have "suppress_rare 10 (map ?g ?us) (?g u) =
          (if count_list ?us u < 10 then Str ''OTHER'' else ?g u)" if "u \<in> set ?us" for u
  proof -
    from that have "insert u (set ?us) = set ?us" by auto
    with inj have "count_list (map ?g ?us) (?g u) = count_list ?us u"
      using count_list_map_inj[of ?g u ?us] by simp
    then show ?thesis by (simp add: suppress_rare_def is_rare_def notna_def)
  qed
  then have "map (suppress_rare 10 (map ?g ?us)) (map ?g ?us) =
      map (\<lambda>u. if count_list ?us u < 10 then Str ''OTHER'' else ?g u) ?us"
    by simp
  with anonymize_dataset_user_hash[OF assms(1,2)] show ?thesis by simp
qed

lemma two_users_anonymized:
  "\<exists>df'. anonymize_dataset str_of_string tagged two_users = Inr df'"
proof -
  have "\<not> has_column (generalize_nationality (hash_user_ids str_of_string tagged two_users))
          ''user_age''"
    by (simp add: has_column_iff generalize_nationality_def hash_user_ids_def two_users_def
        assign_column_def set_dtype_def)
  then show ?thesis by (simp add: anonymize_dataset_def bin_age_def)
qed

theorem rare_user_hash_is_OTHER_witness:
  "\<exists>df'. anonymize_dataset str_of_string tagged two_users = Inr df' \<and>
         column_cells two_users ''user_id'' = [Str ''u1'', Str ''u2''] \<and>
         column_cells df' ''user_hash'' = [Str ''OTHER'', Str ''OTHER'']"
proof -
  from two_users_anonymized obtain df' where
    df': "anonymize_dataset str_of_string tagged two_users = Inr df'" by blast
  have has: "has_column two_users ''user_id''"
    by (simp add: has_column_def colnames_def two_users_def)
  have ids: "column_cells two_users ''user_id'' = [Str ''u1'', Str ''u2'']"
    by (simp add: column_cells_def two_users_def row_get_def)
  have inj: "inj_on (\<lambda>u. tagged (str_of_string u)) (set (column_cells two_users ''user_id''))"
    by (simp add: ids tagged_def str_of_string_def)
  from rare_user_hash_is_OTHER[OF has df' inj]
  have "column_cells df' ''user_hash'' = [Str ''OTHER'', Str ''OTHER'']"
    by (simp add: ids)
  with df' ids show ?thesis by blast
qed

section \<open>Label consistency through the pipeline: results\<close>

subsection \<open>Rows that keep their labels\<close>

lemma labelled_consistent: "labelled r \<Longrightarrow> label_consistent r"
  by (auto simp: labelled_def label_consistent_def split: cell.splits)

lemma labelled_upd:
  "c \<noteq> ''engagement_score'' \<Longrightarrow> c \<noteq> ''booking_probability'' \<Longrightarrow>
   labelled (r(c \<mapsto> v)) = labelled r"
  by (auto simp: labelled_def row_get_upd split: cell.splits)

lemma labelled_restrict:
  "''engagement_score'' \<notin> A \<Longrightarrow> ''booking_probability'' \<notin> A \<Longrightarrow>
   labelled (r |` (- A)) = labelled r"
  by (auto simp: labelled_def row_get_restrict split: cell.splits)

lemma labelled_fillna:
  assumes "labelled r"
  shows "labelled (r(c \<mapsto> fillna v (row_get r c)))"
proof -
  from assms obtain s where s: "row_get r ''engagement_score'' = Num s"
    and b: "row_get r ''booking_probability'' = Num (of_bool (s = 5))"
    by (auto simp: labelled_def split: cell.splits)
  show ?thesis
    using s b by (auto simp: labelled_def row_get_upd fillna_def isna_def)
qed

lemma fold_preserves_on:
  assumes "\<And>c d. c \<in> set cs \<Longrightarrow> P d \<Longrightarrow> P (f c d)" "P df"
  shows "P (fold f cs df)"
  using assms by (induction cs arbitrary: df) simp_all

lemma set_map2_upd:
  "set (map2 (\<lambda>r v. r(c \<mapsto> v)) rs vs) \<subseteq> {r(c \<mapsto> v) | r v. r \<in> set rs \<and> v \<in> set vs}"
  by (auto dest: set_zip_leftD set_zip_rightD)

lemma all_labelled_subset:
  "set (rows d) \<subseteq> set (rows df) \<Longrightarrow> all_labelled df \<Longrightarrow> all_labelled d"
  by (auto simp: all_labelled_def list_all_iff)

lemma all_labelled_map_column_fillna:
  "all_labelled df \<Longrightarrow> all_labelled (map_column c (fillna v) df)"
  by (auto simp: all_labelled_def list_all_iff map_column_def labelled_fillna)

lemma all_labelled_map_column:
  "c \<noteq> ''engagement_score'' \<Longrightarrow> c \<noteq> ''booking_probability'' \<Longrightarrow>
   all_labelled df \<Longrightarrow> all_labelled (map_column c f df)"
  by (auto simp: all_labelled_def list_all_iff map_column_def labelled_upd)

lemma all_labelled_assign_column:
  "c \<noteq> ''engagement_score'' \<Longrightarrow> c \<noteq> ''booking_probability'' \<Longrightarrow>
   all_labelled df \<Longrightarrow> all_labelled (assign_column c t f df)"
  by (auto simp: all_labelled_def list_all_iff assign_column_def labelled_upd)

lemma all_labelled_assign_values:
  assumes "c \<noteq> ''engagement_score''" "c \<noteq> ''booking_probability''" "all_labelled df"
  shows "all_labelled (assign_values c t vs df)"
proof -
  have "labelled r'" if "r' \<in> set (map2 (\<lambda>r v. r(c \<mapsto> v)) (rows df) vs)" for r'
  proof -
    from that set_map2_upd[of c "rows df" vs] obtain r v where
      "r' = r(c \<mapsto> v)" "r \<in> set (rows df)" by blast
    with assms show ?thesis by (simp add: labelled_upd all_labelled_def list_all_iff)
  qed
  then show ?thesis by (simp add: all_labelled_def list_all_iff assign_values_def)
qed

lemma all_labelled_drop_columns:
  "''engagement_score'' \<notin> set cs \<Longrightarrow> ''booking_probability'' \<notin> set cs \<Longrightarrow>
   all_labelled df \<Longrightarrow> all_labelled (drop_columns cs df)"
  by (auto simp: all_labelled_def list_all_iff drop_columns_def labelled_restrict)

subsection \<open>Label construction writes consistent labels\<close>

lemma not_vector_labels:
  "\<not> is_vector_column ''engagement_score''" "\<not> is_vector_column ''booking_probability''"
  by (simp_all add: is_vector_column_def contains_def startswith_def sublist_Cons_right)

lemma labelled_flag:
  assumes "row_get r ''engagement_score'' = Num s"
  shows "labelled (r(''booking_probability'' \<mapsto>
           Num (of_bool (cell_eq 5 (row_get r ''engagement_score'')))))"
  using assms by (simp add: labelled_def row_get_upd)

lemma construct_labels_labelled:
  assumes "construct_labels py_str to_datetime total_seconds df = Inr L"
  shows "all_labelled L \<and> label_dtypes L"
proof -
  from assms obtain scores where
    "traverse (\<lambda>r. calculate_engagement_score (series_row df r)) (rows df) = Inr scores"
    by (auto simp: construct_labels_def split: sum.splits)
  note sc = this
  define df1 where "df1 = assign_values ''engagement_score'' Float64 (map Num scores) df"
  define df2 where "df2 = assign_column ''booking_probability'' Int64
      (\<lambda>r. Num (of_bool (cell_eq 5 (row_get r ''engagement_score'')))) df1"
  from assms sc obtain delays where
    "traverse (\<lambda>r. calculate_time_to_interaction to_datetime total_seconds (series_row df2 r))
       (rows df2) = Inr delays"
    by (auto simp: construct_labels_def Let_def df1_def df2_def split: sum.splits)
  note dl = this
  define df3 where "df3 = assign_values ''time_to_interaction''
      (apply_dtype (rows df) (delay_dtype delays)) (map seconds_cell delays) df2"
  define df4 where "df4 = assign_column ''interaction_type'' (apply_dtype (rows df) Object)
      (\<lambda>r. Str (get_interaction_type (row_get r ''engagement_score''))) df3"
  from assms sc dl have L: "L = assign_column ''interaction_id'' Object
      (\<lambda>r. Str (py_str (row_get r ''recommendation_id''))) df4"
    by (auto simp: construct_labels_def Let_def df1_def df2_def df3_def df4_def
        split: sum.splits if_splits)
  have num: "\<exists>s. row_get r ''engagement_score'' = Num s" if "r \<in> set (rows df1)" for r
  proof -
    from that set_map2_upd[of "''engagement_score''" "rows df" "map Num scores"]
    obtain r0 v where "r = r0(''engagement_score'' \<mapsto> v)" "v \<in> set (map Num scores)"
      unfolding df1_def assign_values_def by auto
    then show ?thesis by (auto simp: row_get_upd)
  qed
  have "all_labelled df2"
  proof -
    have "labelled (r(''booking_probability'' \<mapsto>
        Num (of_bool (cell_eq 5 (row_get r ''engagement_score'')))))"
      if "r \<in> set (rows df1)" for r
    proof -
      from num[OF that] obtain s where "row_get r ''engagement_score'' = Num s" ..
      then show ?thesis by (rule labelled_flag)
    qed
    then show ?thesis
      by (simp add: all_labelled_def list_all_iff df2_def assign_column_def)
  qed
  then have "all_labelled df3"
    unfolding df3_def by (intro all_labelled_assign_values) simp_all
  then have "all_labelled df4"
    unfolding df4_def by (intro all_labelled_assign_column) simp_all
  then have a: "all_labelled L"
    unfolding L by (intro all_labelled_assign_column) simp_all
  have b: "label_dtypes L"
    by (simp add: label_dtypes_def L df4_def df3_def df2_def df1_def assign_column_def
        assign_values_def set_set_dtype)
  from a b show ?thesis by simp
qed

subsection \<open>The later stages keep them\<close>

lemma add_negative_samples_subset:
  assumes "is_permutation perm" "add_negative_samples perm fl ratio df = Inr df'"
  shows "set (rows df') \<subseteq> set (rows df) \<and> columns df' = columns df"
proof -
  from add_negative_samples_Inr[OF assms(2,1)] obtain s where
    sub: "mset s \<subseteq># mset (filter is_negative (rows df))" and
    rws: "rows df' = shuffle perm (filter is_positive (rows df) @ s)" and
    cols: "columns df' = columns df"
    by blast
  have "mset (rows df') = mset (filter is_positive (rows df) @ s)"
    using rws mset_shuffle[OF assms(1), of "filter is_positive (rows df) @ s"] by simp
  then have "set (rows df') = set (filter is_positive (rows df) @ s)"
    by (metis set_mset_mset)
  moreover have "set s \<subseteq> set (filter is_negative (rows df))"
    using sub by (metis set_mset_mono set_mset_mset)
  ultimately show ?thesis using cols by auto
qed

lemma impute_numerical_labelled: "all_labelled d \<Longrightarrow> all_labelled (impute_numerical c d)"
  by (simp add: impute_numerical_def Let_def all_labelled_map_column_fillna
      split: option.splits)

lemma impute_categorical_labelled: "all_labelled d \<Longrightarrow> all_labelled (impute_categorical c d)"
  by (simp add: impute_categorical_def Let_def all_labelled_map_column_fillna)

lemma impute_missing_values_labelled:
  assumes "all_labelled df"
  shows "all_labelled (impute_missing_values df)"
proof -
  define d1 where
    "d1 = fold impute_numerical (select_dtypes [Float32, Float64, Int32, Int64] df) df"
  have "all_labelled d1"
    unfolding d1_def
    by (rule fold_preserves_on[where P = all_labelled, OF _ assms])
       (rule impute_numerical_labelled)
  then have "all_labelled (fold impute_categorical (select_dtypes [Object] d1) d1)"
    by (rule fold_preserves_on[where P = all_labelled, rotated])
       (rule impute_categorical_labelled)
  then show ?thesis by (simp add: impute_missing_values_def Let_def d1_def)
qed

lemma ranges_labelled:
  assumes "all_labelled df"
  shows "all_labelled (data_cleaning_validate_vector_ranges df)"
  unfolding data_cleaning_validate_vector_ranges_def
proof (rule fold_preserves_on[where P=all_labelled, OF _ assms])
  fix c d
  assume c: "c \<in> set (filter is_vector_column (colnames df))" and d: "all_labelled d"
  from c not_vector_labels have "c \<noteq> ''engagement_score''" "c \<noteq> ''booking_probability''"
    by auto
  with d show "all_labelled (clip_vector_column c d)"
    by (simp add: clip_vector_column_def all_labelled_map_column)
qed

lemma clean_dataset_labelled:
  assumes "all_labelled df" "clean_dataset df = Inr df'"
  shows "all_labelled df' \<and> columns df' = columns df"
proof -
  define A where "A = remove_missing_required df"
  define B where "B = impute_missing_values A"
  from assms(2) obtain C where C: "remove_outliers B = Inr C"
    and df': "df' = remove_duplicates (data_cleaning_validate_vector_ranges C)"
    by (auto simp: clean_dataset_def A_def B_def split: sum.splits)
  have "set (rows A) \<subseteq> set (rows df)" by (auto simp: A_def remove_missing_required_eq)
  then have "all_labelled A" using assms(1) by (rule all_labelled_subset)
  then have "all_labelled B" unfolding B_def by (rule impute_missing_values_labelled)
  with remove_outliers_Inr[OF C] have "all_labelled C" by (auto intro: all_labelled_subset)
  then have "all_labelled (data_cleaning_validate_vector_ranges C)" by (rule ranges_labelled)
  with remove_duplicates_subset have a: "all_labelled df'"
    unfolding df' by (rule all_labelled_subset)
  have "columns df' = columns df"
    using remove_outliers_Inr[OF C] by (simp add: df' A_def B_def)
  with a show ?thesis by simp
qed

lemma remove_rare_categories_labelled:
  assumes "all_labelled df" "label_dtypes df"
  shows "all_labelled (remove_rare_categories t df)"
  unfolding remove_rare_categories_def
proof (rule fold_preserves_on[where P=all_labelled, OF _ assms(1)])
  fix c d
  assume c: "c \<in> set (select_dtypes [Object] df)" and d: "all_labelled d"
  from c have "(c, Object) \<in> set (columns df)" by (auto simp: select_dtypes_def)
  with assms(2) have "c \<noteq> ''engagement_score''" "c \<noteq> ''booking_probability''"
    by (auto simp: label_dtypes_def)
  with d show "all_labelled (remove_rare_column t c d)"
    by (simp add: remove_rare_column_def Let_def all_labelled_map_column)
qed

lemma anonymize_dataset_labelled:
  assumes "all_labelled df" "label_dtypes df" "anonymize_dataset py_str sha256 df = Inr df'"
  shows "all_labelled df'"
proof -
  define H where "H = hash_user_ids py_str sha256 df"
  define G where "G = generalize_nationality H"
  from assms(3) obtain B where B: "bin_age G = Inr B"
    and df': "df' = remove_pii (remove_rare_categories 10 B)"
    by (auto simp: anonymize_dataset_def H_def G_def split: sum.splits)
  have aH: "all_labelled H"
    using assms(1) by (simp add: H_def hash_user_ids_def all_labelled_assign_column)
  have tH: "label_dtypes H"
    using assms(2)
    by (simp add: H_def hash_user_ids_def label_dtypes_def assign_column_def set_set_dtype)
  have aG: "all_labelled G"
    using aH
    by (simp add: G_def generalize_nationality_def all_labelled_drop_columns
        all_labelled_assign_column)
  have tG: "label_dtypes G"
    using tH by (simp add: G_def label_dtypes_def generalize_nationality_columns)
  have aB: "all_labelled B"
  proof (cases "has_column G ''user_age''")
    case False
    with B aG show ?thesis by (simp add: bin_age_def)
  next
    case True
    with B obtain ages where "B = drop_columns [''user_age'']
        (assign_values ''user_age_group'' Category (map age_group_of ages) G)"
      by (auto simp: bin_age_def split: sum.splits)
    with aG show ?thesis
      by (simp add: all_labelled_drop_columns all_labelled_assign_values)
  qed
  have tB: "label_dtypes B"
    using tG bin_age_keeps(2)[OF B] by (simp add: label_dtypes_def)
  have "all_labelled (remove_rare_categories 10 B)"
    using aB tB by (rule remove_rare_categories_labelled)
  then show ?thesis
    by (simp add: df' remove_pii_def Let_def all_labelled_drop_columns pii_cols_def)
qed

subsection \<open>From label construction to the split\<close>

text \<open>
  Claim C2. Label construction writes the booking flag from the engagement score; the
  stages after it drop rows, fill missing cells, clip preference columns, rewrite string
  columns and drop identifier columns, and none of that touches the two label columns.
  So in the labelled frame, and in the balanced, the cleaned and the anonymized frame,
  and in both partitions of a split that hands out rows of the frame it is given, every
  row has a booking flag of 1 exactly when its engagement score is 5.0, and of 0
  otherwise.
\<close>

theorem label_consistency_preserved:
  assumes "is_permutation perm"
    and "construct_labels py_str to_datetime total_seconds featured_df = Inr labeled_df"
    and "add_negative_samples perm fl ratio labeled_df = Inr balanced_df"
    and "clean_dataset balanced_df = Inr cleaned_df"
    and "anonymize_dataset py_str sha256 cleaned_df = Inr final_df"
    and "train_test_split final_df = Inr (train_df, test_df)"
    and "set (rows train_df) \<union> set (rows test_df) \<subseteq> set (rows final_df)"
  shows "\<forall>d \<in> set [labeled_df, balanced_df, cleaned_df, final_df, train_df, test_df].
           \<forall>r \<in> set (rows d). label_consistent r"
proof -
  from construct_labels_labelled[OF assms(2)]
  have aL: "all_labelled labeled_df" and tL: "label_dtypes labeled_df" by simp_all
  from add_negative_samples_subset[OF assms(1,3)]
  have sB: "set (rows balanced_df) \<subseteq> set (rows labeled_df)"
    and cB: "columns balanced_df = columns labeled_df" by simp_all
  from sB aL have aB: "all_labelled balanced_df" by (rule all_labelled_subset)
  from clean_dataset_labelled[OF aB assms(4)]
  have aC: "all_labelled cleaned_df" and cC: "columns cleaned_df = columns balanced_df"
    by simp_all
  from tL cB cC have tC: "label_dtypes cleaned_df" by (simp add: label_dtypes_def)
  from aC tC assms(5) have aF: "all_labelled final_df" by (rule anonymize_dataset_labelled)
  from assms(7) aF have aT: "all_labelled train_df" "all_labelled test_df"
    by (auto intro: all_labelled_subset)
  have "\<forall>r \<in> set (rows d). label_consistent r" if "all_labelled d" for d
    using that labelled_consistent by (auto simp: all_labelled_def list_all_iff)
  with aL aB aC aF aT show ?thesis by simp
qed

subsection \<open>Seven recommendations through the stages\<close>

lemma seven_scores:
  "traverse (\<lambda>r. calculate_engagement_score (series_row seven_recommendations r))
     (rows seven_recommendations) = Inr [5, 5, - 1, 0, 5, 5, 5]"
  by (simp add: seven_recommendations_def recommendation_def calculate_engagement_score_def
      series_row_def colnames_def lookup_scores restrict_map_def row_get_def notna_def)

lemma no_creation_no_delay:
  assumes "row_get r ''createdAt'' = Null"
  shows "calculate_time_to_interaction to_datetime total_seconds r = Inr None"
  using assms by (simp add: calculate_time_to_interaction_def isna_def)

lemma seven_construct:
  "construct_labels str_of_string only_timestamps microsecond_seconds seven_recommendations =
     Inr seven_labelled"
  unfolding construct_labels_def seven_scores
  by (simp add: Let_def assign_values_def assign_column_def seven_recommendations_def
      recommendation_def set_dtype_def no_creation_no_delay series_row_def colnames_def
      row_get_def restrict_map_def has_column_def seconds_cell_def get_interaction_type_def
      str_of_string_def seven_labelled_def labelled_recommendations_def
      labelled_recommendation_def apply_dtype_def delay_dtype_def fun_upd_twist)

lemma labelled_get:
  "row_get (labelled_recommendation u rid st sc fl dl k) ''user_id'' = u"
  "row_get (labelled_recommendation u rid st sc fl dl k) ''recommendation_id'' = Str rid"
  "row_get (labelled_recommendation u rid st sc fl dl k) ''status'' = Str st"
  "row_get (labelled_recommendation u rid st sc fl dl k) ''engagement_score'' = Num sc"
  "row_get (labelled_recommendation u rid st sc fl dl k) ''booking_probability'' = Num fl"
  "row_get (labelled_recommendation u rid st sc fl dl k) ''time_to_interaction'' = dl"
  "row_get (labelled_recommendation u rid st sc fl dl k) ''interaction_type'' = Str k"
  "row_get (labelled_recommendation u rid st sc fl dl k) ''interaction_id'' = Str rid"
  by (simp_all add: labelled_recommendation_def row_get_def)

lemma labelled_columns:
  "colnames (labelled_recommendations rs) =
     [''user_id'', ''recommendation_id'', ''status'', ''engagement_score'',
      ''booking_probability'', ''time_to_interaction'', ''interaction_type'',
      ''interaction_id'']"
  by (simp add: labelled_recommendations_def colnames_def)

lemma labelled_rows: "rows (labelled_recommendations rs) = rs"
  by (simp add: labelled_recommendations_def)

lemma labelled_update: "labelled_recommendations rs\<lparr>rows := rs'\<rparr> = labelled_recommendations rs'"
  by (simp add: labelled_recommendations_def)

lemma upt_6: "[0..<6] = [0, 1, 2, 3, 4, 5]"
  by (simp add: upt_rec)

lemma seven_balanced:
  "add_negative_samples reversed_perm no_rounding 2 seven_labelled = Inr six_balanced"
proof -
  have scores: "series seven_labelled ''engagement_score'' =
      Inr [Num 5, Num 5, Num (- 1), Num 0, Num 5, Num 5, Num 5]"
    by (simp add: series_def seven_labelled_def has_column_def labelled_columns labelled_rows
        labelled_get)
  have target: "py_int (no_rounding 10) = 10"
    by (simp add: py_int_def no_rounding_def)
  have rws: "rows seven_labelled =
      [labelled_recommendation (Str ''u1'') ''r1'' ''BOOKED'' 5 1 Null ''BOOKED'',
       labelled_recommendation (Str ''u2'') ''r2'' ''BOOKED'' 5 1 Null ''BOOKED'',
       labelled_recommendation (Str ''u3'') ''r3'' ''REJECTED'' (- 1) 0 Null ''REJECTED'',
       labelled_recommendation Null ''r4'' ''GENERATED'' 0 0 Null ''NOT_VIEWED'',
       labelled_recommendation (Str ''u5'') ''r5'' ''BOOKED'' 5 1 Null ''BOOKED'',
       labelled_recommendation (Str ''u6'') ''r6'' ''BOOKED'' 5 1 Null ''BOOKED'',
       labelled_recommendation (Str ''u7'') ''r7'' ''BOOKED'' 5 1 Null ''BOOKED'']"
    by (simp add: seven_labelled_def labelled_rows)
  have upd: "seven_labelled\<lparr>rows := rs\<rparr> = labelled_recommendations rs" for rs
    by (simp add: seven_labelled_def labelled_update)
  show ?thesis
    unfolding add_negative_samples_def scores
    by (simp add: select_def rws target shuffle_def reversed_perm_def upt_6 upd
        six_balanced_def Let_def)
qed

lemma labelled_upd_delay:
  "(labelled_recommendation u rid st sc fl dl k)(''time_to_interaction'' \<mapsto> dl') =
     labelled_recommendation u rid st sc fl dl' k"
  by (auto simp: labelled_recommendation_def fun_eq_iff)

lemma six_balanced_clean: "clean_dataset six_balanced = Inr five_cleaned"
proof -
  let ?five = "\<lambda>dl.
      [labelled_recommendation (Str ''u7'') ''r7'' ''BOOKED'' 5 1 dl ''BOOKED'',
       labelled_recommendation (Str ''u6'') ''r6'' ''BOOKED'' 5 1 dl ''BOOKED'',
       labelled_recommendation (Str ''u5'') ''r5'' ''BOOKED'' 5 1 dl ''BOOKED'',
       labelled_recommendation (Str ''u2'') ''r2'' ''BOOKED'' 5 1 dl ''BOOKED'',
       labelled_recommendation (Str ''u1'') ''r1'' ''BOOKED'' 5 1 dl ''BOOKED'']"
  have has: "has_column (labelled_recommendations rs) c \<longleftrightarrow>
      c \<in> set [''user_id'', ''recommendation_id'', ''status'', ''engagement_score'',
        ''booking_probability'', ''time_to_interaction'', ''interaction_type'',
        ''interaction_id'']" for rs c
    by (simp add: has_column_def labelled_columns)
  have missing: "remove_missing_required six_balanced = labelled_recommendations (?five Null)"
    by (simp add: remove_missing_required_def required_cols_def six_balanced_def has
        dropna_def labelled_rows labelled_update labelled_get notna_def)
  have numerical: "select_dtypes [Float32, Float64, Int32, Int64] (labelled_recommendations rs) =
      [''engagement_score'', ''booking_probability'']" for rs
    by (simp add: select_dtypes_def labelled_recommendations_def)
  have categorical: "select_dtypes [Object] (labelled_recommendations rs) =
      [''user_id'', ''recommendation_id'', ''status'', ''time_to_interaction'',
       ''interaction_type'', ''interaction_id'']" for rs
    by (simp add: select_dtypes_def labelled_recommendations_def)
  have impute: "impute_missing_values (labelled_recommendations (?five Null)) =
      labelled_recommendations (?five (Str ''UNKNOWN''))"
    by (simp add: impute_missing_values_def numerical categorical impute_numerical_def
        impute_categorical_def column_cells_def labelled_rows labelled_get isna_def
        map_column_def labelled_update labelled_upd_delay fillna_def)
  have outliers: "remove_outliers (labelled_recommendations rs) =
      Inr (labelled_recommendations rs)" for rs
    by (simp add: remove_outliers_def remove_outliers_column_def has)
  have vectors: "filter is_vector_column (colnames (labelled_recommendations rs)) =
      [''user_id'']" for rs
    by (simp add: labelled_columns is_vector_column_def contains_def startswith_def
        sublist_Cons_right)
  have identifiers: "\<not> float_column (labelled_recommendations rs) ''user_id''" for rs
    by (simp add: float_column_def dtype_of_def labelled_recommendations_def)
  have ranges: "data_cleaning_validate_vector_ranges (labelled_recommendations rs) =
      labelled_recommendations rs" for rs
    by (simp add: data_cleaning_validate_vector_ranges_def vectors clip_vector_column_def
        identifiers)
  have duplicates: "remove_duplicates (labelled_recommendations (?five (Str ''UNKNOWN''))) =
      labelled_recommendations (?five (Str ''UNKNOWN''))"
    by (simp add: remove_duplicates_def has labelled_rows labelled_get labelled_update)
  show ?thesis
    by (simp add: clean_dataset_def missing impute outliers ranges duplicates five_cleaned_def)
qed

lemma five_hashed:
  "hash_user_ids str_of_string tagged five_cleaned =
     \<lparr>columns = columns five_cleaned @ [(''user_hash'', Object)],
      rows = map (\<lambda>r. r(''user_hash'' \<mapsto> Str (tagged (str_of_string (row_get r ''user_id'')))))
               (rows five_cleaned)\<rparr>"
  by (simp add: hash_user_ids_def five_cleaned_def has_column_def colnames_def
      assign_column_def set_dtype_def labelled_recommendations_def)

lemma rare_everywhere:
  assumes "\<forall>r \<in> set (rows df). notna (row_get r c)"
    and "\<forall>v \<in> set (column_cells df c). count_list (column_cells df c) v < t"
    and "rows df \<noteq> []"
  shows "remove_rare_column t c df = map_column c (\<lambda>v. Str ''OTHER'') df"
proof -
  have cells: "\<forall>v \<in> set (column_cells df c). is_rare t (column_cells df c) v"
    using assms(1,2) by (auto simp: is_rare_def column_cells_def)
  then have ex: "list_ex (is_rare t (column_cells df c)) (column_cells df c)"
    using assms(3) by (cases "rows df") (auto simp: list_ex_iff column_cells_def)
  have "map (\<lambda>r. r(c \<mapsto> suppress_rare t (column_cells df c) (row_get r c))) (rows df) =
        map (\<lambda>r. r(c \<mapsto> Str ''OTHER'')) (rows df)"
    using cells by (auto simp: suppress_rare_def column_cells_def)
  with ex show ?thesis
    by (simp add: remove_rare_column_def Let_def map_column_def)
qed

lemma rare_fold:
  assumes "distinct cs" and "\<forall>c \<in> set cs. \<forall>r \<in> set (rows df). notna (row_get r c)"
    and "length (rows df) < t" and "rows df \<noteq> []"
  shows "fold (remove_rare_column t) cs df = fold (\<lambda>c. map_column c (\<lambda>v. Str ''OTHER'')) cs df"
  using assms
proof (induction cs arbitrary: df)
  case Nil
  then show ?case by simp
next
  case (Cons c cs)
  have "count_list (column_cells df c) v < t" for v
    using count_le_length[of "column_cells df c" v] Cons.prems(3)
    by (simp add: column_cells_def)
  with Cons.prems have step: "remove_rare_column t c df = map_column c (\<lambda>v. Str ''OTHER'') df"
    by (intro rare_everywhere) simp_all
  let ?d = "map_column c (\<lambda>v. Str ''OTHER'') df"
  have "fold (remove_rare_column t) cs ?d = fold (\<lambda>c. map_column c (\<lambda>v. Str ''OTHER'')) cs ?d"
  proof (rule Cons.IH)
    show "distinct cs" using Cons.prems(1) by simp
    show "\<forall>c' \<in> set cs. \<forall>r \<in> set (rows ?d). notna (row_get r c')"
      using Cons.prems(1,2) by (auto simp: map_column_def row_get_upd)
    show "length (rows ?d) < t" using Cons.prems(3) by (simp add: map_column_def)
    show "rows ?d \<noteq> []" using Cons.prems(4) by (simp add: map_column_def)
  qed
  with step show ?case by simp
qed

lemma anonymous_row:
  "((labelled_recommendation u rid st 5 1 dl k)
      (''user_hash'' \<mapsto> h, ''user_id'' \<mapsto> Str ''OTHER'', ''recommendation_id'' \<mapsto> Str ''OTHER'',
       ''status'' \<mapsto> Str ''OTHER'', ''time_to_interaction'' \<mapsto> Str ''OTHER'',
       ''interaction_type'' \<mapsto> Str ''OTHER'', ''interaction_id'' \<mapsto> Str ''OTHER'',
       ''user_hash'' \<mapsto> Str ''OTHER'')) |` (- {''user_id'', ''recommendation_id''}) =
   anonymous_booking"
  by (auto simp: fun_eq_iff restrict_map_def labelled_recommendation_def anonymous_booking_def)

lemma five_anonymized:
  "anonymize_dataset str_of_string tagged five_cleaned = Inr (anonymous_bookings 5)"
proof -
  define H where "H = hash_user_ids str_of_string tagged five_cleaned"
  have five: "replicate 5 x = [x, x, x, x, x]" for x :: row
    by (simp add: eval_nat_numeral)
  have cols: "columns H =
      [(''user_id'', Object), (''recommendation_id'', Object), (''status'', Object),
       (''engagement_score'', Float64), (''booking_probability'', Int64),
       (''time_to_interaction'', Object), (''interaction_type'', Object),
       (''interaction_id'', Object), (''user_hash'', Object)]"
    unfolding H_def five_hashed
    by (simp add: five_cleaned_def labelled_recommendations_def)
  have rws: "rows H =
      [(labelled_recommendation (Str ''u7'') ''r7'' ''BOOKED'' 5 1 (Str ''UNKNOWN'') ''BOOKED'')
         (''user_hash'' \<mapsto> Str ''#u7''),
       (labelled_recommendation (Str ''u6'') ''r6'' ''BOOKED'' 5 1 (Str ''UNKNOWN'') ''BOOKED'')
         (''user_hash'' \<mapsto> Str ''#u6''),
       (labelled_recommendation (Str ''u5'') ''r5'' ''BOOKED'' 5 1 (Str ''UNKNOWN'') ''BOOKED'')
         (''user_hash'' \<mapsto> Str ''#u5''),
       (labelled_recommendation (Str ''u2'') ''r2'' ''BOOKED'' 5 1 (Str ''UNKNOWN'') ''BOOKED'')
         (''user_hash'' \<mapsto> Str ''#u2''),
       (labelled_recommendation (Str ''u1'') ''r1'' ''BOOKED'' 5 1 (Str ''UNKNOWN'') ''BOOKED'')
         (''user_hash'' \<mapsto> Str ''#u1'')]"
    unfolding H_def five_hashed
    by (simp add: five_cleaned_def labelled_recommendations_def labelled_get
        tagged_def str_of_string_def)
  have has: "has_column d c \<longleftrightarrow> c \<in> set [''user_id'', ''recommendation_id'', ''status'',
      ''engagement_score'', ''booking_probability'', ''time_to_interaction'',
      ''interaction_type'', ''interaction_id'', ''user_hash'']" if "columns d = columns H" for d c
    using that by (simp add: has_column_def colnames_def cols)
  have G: "generalize_nationality H = H"
    by (simp add: generalize_nationality_def has)
  have B: "bin_age H = Inr H"
    by (simp add: bin_age_def has)
  have objects: "select_dtypes [Object] H =
      [''user_id'', ''recommendation_id'', ''status'', ''time_to_interaction'',
       ''interaction_type'', ''interaction_id'', ''user_hash'']"
    by (simp add: select_dtypes_def cols)
  have rare: "remove_rare_categories 10 H =
      fold (\<lambda>c. map_column c (\<lambda>v. Str ''OTHER''))
        [''user_id'', ''recommendation_id'', ''status'', ''time_to_interaction'',
         ''interaction_type'', ''interaction_id'', ''user_hash''] H"
    unfolding remove_rare_categories_def objects
    by (rule rare_fold) (simp_all add: rws row_get_upd labelled_get notna_def)
  have R: "columns (remove_rare_categories 10 H) = columns H"
    "rows (remove_rare_categories 10 H) =
       map (\<lambda>r. r(''user_id'' \<mapsto> Str ''OTHER'', ''recommendation_id'' \<mapsto> Str ''OTHER'',
         ''status'' \<mapsto> Str ''OTHER'', ''time_to_interaction'' \<mapsto> Str ''OTHER'',
         ''interaction_type'' \<mapsto> Str ''OTHER'', ''interaction_id'' \<mapsto> Str ''OTHER'',
         ''user_hash'' \<mapsto> Str ''OTHER'')) (rows H)"
    by (simp_all add: rare map_column_def comp_def)
  have pii: "filter (has_column (remove_rare_categories 10 H)) pii_cols =
      [''user_id'', ''recommendation_id'']"
    by (simp add: pii_cols_def has[OF R(1)])
  have final: "map (\<lambda>r. r |` (- {''user_id'', ''recommendation_id''}))
      (rows (remove_rare_categories 10 H)) = replicate 5 anonymous_booking"
    unfolding R(2) rws five by (simp only: list.map anonymous_row)
  have "remove_pii (remove_rare_categories 10 H) = anonymous_bookings 5"
    by (simp add: remove_pii_def pii drop_columns_def final R(1) cols anonymous_bookings_def)
  then show ?thesis
    by (simp add: anonymize_dataset_def H_def[symmetric] G B)
qed

lemma five_split:
  "four_to_one (anonymous_bookings 5) = Inr (anonymous_bookings 4, anonymous_bookings 1)"
  by (simp add: four_to_one_def anonymous_bookings_def)

theorem label_consistency_preserved_witness:
  "is_permutation reversed_perm \<and>
   construct_labels str_of_string only_timestamps microsecond_seconds seven_recommendations =
     Inr seven_labelled \<and>
   add_negative_samples reversed_perm no_rounding 2 seven_labelled = Inr six_balanced \<and>
   clean_dataset six_balanced = Inr five_cleaned \<and>
   anonymize_dataset str_of_string tagged five_cleaned = Inr (anonymous_bookings 5) \<and>
   four_to_one (anonymous_bookings 5) = Inr (anonymous_bookings 4, anonymous_bookings 1) \<and>
   map (\<lambda>r. (row_get r ''engagement_score'', row_get r ''booking_probability''))
     (rows seven_labelled) =
     [(Num 5, Num 1), (Num 5, Num 1), (Num (- 1), Num 0), (Num 0, Num 0), (Num 5, Num 1),
      (Num 5, Num 1), (Num 5, Num 1)] \<and>
   list_all label_consistent (rows seven_labelled) \<and>
   list_all label_consistent (rows six_balanced) \<and>
   list_all label_consistent (rows five_cleaned) \<and>
   list_all label_consistent (rows (anonymous_bookings 5)) \<and>
   list_all label_consistent (rows (anonymous_bookings 4)) \<and>
   list_all label_consistent (rows (anonymous_bookings 1))"
proof -
  have parts: "set (rows (anonymous_bookings 4)) \<union> set (rows (anonymous_bookings 1))
      \<subseteq> set (rows (anonymous_bookings 5))"
    by (simp add: anonymous_bookings_def)
  note all = label_consistency_preserved[where train_test_split = four_to_one,
      OF reversed_perm_is_permutation seven_construct seven_balanced six_balanced_clean
        five_anonymized five_split parts]
  have each: "list_all label_consistent (rows seven_labelled)"
    "list_all label_consistent (rows six_balanced)"
    "list_all label_consistent (rows five_cleaned)"
    "list_all label_consistent (rows (anonymous_bookings 5))"
    "list_all label_consistent (rows (anonymous_bookings 4))"
    "list_all label_consistent (rows (anonymous_bookings 1))"
    using all by (simp_all add: list_all_iff)
  have labels: "map (\<lambda>r. (row_get r ''engagement_score'', row_get r ''booking_probability''))
     (rows seven_labelled) =
     [(Num 5, Num 1), (Num 5, Num 1), (Num (- 1), Num 0), (Num 0, Num 0), (Num 5, Num 1),
      (Num 5, Num 1), (Num 5, Num 1)]"
    by (simp add: seven_labelled_def labelled_rows labelled_get)
  show ?thesis
    by (intro conjI reversed_perm_is_permutation seven_construct seven_balanced
        six_balanced_clean five_anonymized five_split labels each)
qed

end
